theory Spec2Isabelle
  imports Complex_Main "HOL-Library.Multiset"
begin

section \<open>Python values and library operations\<close>

text \<open>
  The exceptions the module can raise. \<open>StopIteration\<close> is not listed here: it is the
  end-of-epoch signal of \<open>next\<close> and carries the provider it leaves behind.
\<close>

datatype error =
    ValueError
  | IndexError
  | AssertionError
  | FileNotFoundError
  | ZeroDivisionError
  | KeyError
  | AttributeError

text \<open>
  A two-dimensional array (dense or sparse) is the list of its rows; \<open>shape[0]\<close> is the
  length of that list and the flat data of the array is \<open>concat\<close> of it.

  \<open>xs[a:b]\<close> with Python's clamping of both bounds into \<open>0..len(xs)\<close> and negative
  bounds counted from the end.
\<close>

definition clamp_index :: "int \<Rightarrow> nat \<Rightarrow> nat" where
  "clamp_index i n = (if i < 0 then nat (max 0 (int n + i)) else min (nat i) n)"

definition py_slice :: "int \<times> int \<Rightarrow> 'a list \<Rightarrow> 'a list" where
  "py_slice s xs =
     (let a = clamp_index (fst s) (length xs); b = clamp_index (snd s) (length xs)
      in take (b - a) (drop a xs))"

text \<open>
  \<open>xs[idx]\<close> for an index array \<open>idx\<close> of non-negative integers (all index arrays of the
  module come from \<open>permutation\<close>, \<open>argsort\<close> or the fold splitter): the rows at those
  positions, in the order of \<open>idx\<close>; an index out of range raises \<open>IndexError\<close>.
\<close>

definition take_rows :: "'a list \<Rightarrow> nat list \<Rightarrow> error + 'a list" where
  "take_rows xs idx =
     (if list_all (\<lambda>i. i < length xs) idx then Inr (map (\<lambda>i. xs ! i) idx)
      else Inl IndexError)"

text \<open>
  \<open>np.argsort\<close>: the positions of the elements in increasing order of the elements. The
  model breaks ties by position; on the distinct entries of an order array every sorting
  algorithm gives this result.
\<close>

definition argsort :: "nat list \<Rightarrow> nat list" where
  "argsort xs = map snd (sort_key fst (zip xs [0..<length xs]))"

text \<open>
  The random number generator is a library object: its state is a value of type \<open>'r\<close>
  and its operations are parameters of the model. \<open>permutation g n\<close> is
  \<open>g.permutation(n)\<close>: the array drawn and the generator afterwards. \<open>RandomState seed\<close>
  is a freshly seeded generator.
\<close>

record 'r numpy_random =
  permutation :: "'r \<Rightarrow> nat \<Rightarrow> nat list \<times> 'r"
  RandomState :: "nat \<Rightarrow> 'r"

text \<open>What the library promises of \<open>permutation\<close>: a rearrangement of \<open>0..n-1\<close>.\<close>

definition permutation_ok :: "('r, 'z) numpy_random_scheme \<Rightarrow> bool" where
  "permutation_ok np = (\<forall>g n. sort (fst (permutation np g n)) = [0..<n])"

definition DEFAULT_SEED :: nat where
  "DEFAULT_SEED = 22012018"

text \<open>
  The rest of the library surface the ASSISTments provider uses, again as parameters:
  \<open>randn g m n\<close> is \<open>g.randn(m, n)\<close>, an \<open>m \<times> n\<close> array of samples and the generator
  afterwards; \<open>dot a b\<close> is the floating-point matrix product \<open>np.dot(a, b)\<close> of two
  arrays whose shapes agree; \<open>int_of_product n f\<close> is \<open>int(n * f)\<close> for a row count \<open>n\<close>
  and a fraction \<open>f\<close>, the product being taken and rounded in floating point;
  \<open>expanduser\<close> is \<open>os.path.expanduser\<close>.
\<close>

record ('a, 'r) library = "'r numpy_random" +
  randn :: "'r \<Rightarrow> nat \<Rightarrow> nat \<Rightarrow> 'a list list \<times> 'r"
  dot :: "'a list list \<Rightarrow> 'a list list \<Rightarrow> 'a list list"
  int_of_product :: "nat \<Rightarrow> rat \<Rightarrow> int"
  expanduser :: "string \<Rightarrow> string"

text \<open>
  What the library promises of \<open>dot\<close> on two-dimensional arrays: the product has the
  rows of its first argument and the columns of its second.
\<close>

definition dot_ok :: "('a, 'r, 'z) library_scheme \<Rightarrow> bool" where
  "dot_ok lib =
     (\<forall>a b. length (dot lib a b) = length a \<and>
            (\<forall>row\<in>set (dot lib a b). length row = (case b of [] \<Rightarrow> 0 | r # _ \<Rightarrow> length r)))"

text \<open>
  The files the module reads and writes, by path: a targets archive (with
  \<open>max_num_ans\<close>, \<open>max_prob_set_id\<close> and the target lists), a sparse matrix, or an archive
  holding a compression matrix. The world is the file system together with the state of
  NumPy's global generator \<open>np.random\<close>.
\<close>

datatype ('a, 't) npz =
    TargetsNpz nat nat "'t list list"
  | SparseNpz "'a list list"
  | CompressionNpz "'a list list"

record ('a, 't, 'r) world =
  files :: "string \<Rightarrow> ('a, 't) npz option"
  global_random :: 'r

definition isfile :: "('a, 't, 'r) world \<Rightarrow> string \<Rightarrow> bool" where
  "isfile w path = (files w path \<noteq> None)"

text \<open>\<open>os.path.join\<close> of two components.\<close>

definition path_join :: "string \<Rightarrow> string \<Rightarrow> string" where
  "path_join a b =
     (if b \<noteq> [] \<and> hd b = CHR ''/'' then b
      else if a = [] \<or> last a = CHR ''/'' then a @ b
      else a @ ''/'' @ b)"

section \<open>The generic data provider\<close>

record ('x, 'y, 'r) DataProvider =
  inputs :: "'x list"
  targets :: "'y list"
  batch_size :: int
  max_num_batches :: int
  num_batches :: int
  shuffle_order :: bool
  current_order :: "nat list"
  rng :: 'r
  curr_batch :: int

text \<open>
  The result of a call of \<open>next\<close>: a batch and the provider afterwards; the
  \<open>StopIteration\<close> signal, raised after the provider has started its new epoch, with
  that provider; or another exception, after which the provider is not followed further.
\<close>

datatype ('b, 's) next_result =
    Batch 'b 's
  | StopIteration 's
  | Raised error

definition update_num_batches ::
  "('x, 'y, 'r, 'm) DataProvider_scheme \<Rightarrow> ('x, 'y, 'r, 'm) DataProvider_scheme" where
  "update_num_batches self =
     (let possible_num_batches = int (length (inputs self)) div batch_size self
      in if max_num_batches self = - 1
         then self\<lparr>num_batches := possible_num_batches\<rparr>
         else self\<lparr>num_batches := min (max_num_batches self) possible_num_batches\<rparr>)"

definition set_batch_size ::
  "int \<Rightarrow> ('x, 'y, 'r, 'm) DataProvider_scheme \<Rightarrow> error + ('x, 'y, 'r, 'm) DataProvider_scheme" where
  "set_batch_size v self =
     (if v < 1 then Inl ValueError
      else Inr (update_num_batches (self\<lparr>batch_size := v\<rparr>)))"

definition set_max_num_batches ::
  "int \<Rightarrow> ('x, 'y, 'r, 'm) DataProvider_scheme \<Rightarrow> error + ('x, 'y, 'r, 'm) DataProvider_scheme" where
  "set_max_num_batches v self =
     (if v = 0 \<or> v < - 1 then Inl ValueError
      else Inr (update_num_batches (self\<lparr>max_num_batches := v\<rparr>)))"

text \<open>
  \<open>shuffle\<close> of the base class. The generator is advanced by the draw; the order array,
  the inputs and the targets are indexed by the same permutation.
\<close>

definition DataProvider_shuffle ::
  "('r, 'z) numpy_random_scheme \<Rightarrow> ('x, 'y, 'r, 'm) DataProvider_scheme
     \<Rightarrow> error + ('x, 'y, 'r, 'm) DataProvider_scheme" where
  "DataProvider_shuffle np self =
     (case permutation np (rng self) (length (inputs self)) of
        (perm, g) \<Rightarrow>
          (case take_rows (current_order self) perm of
             Inl e \<Rightarrow> Inl e
           | Inr order \<Rightarrow>
               (case take_rows (inputs self) perm of
                  Inl e \<Rightarrow> Inl e
                | Inr xs \<Rightarrow>
                    (case take_rows (targets self) perm of
                       Inl e \<Rightarrow> Inl e
                     | Inr ys \<Rightarrow>
                         Inr (self\<lparr>rng := g, current_order := order,
                                    inputs := xs, targets := ys\<rparr>)))))"

text \<open>
  \<open>new_epoch\<close> calls \<open>self.shuffle()\<close>, which a subclass overrides: the method is an
  argument of the model.
\<close>

definition new_epoch ::
  "(('x, 'y, 'r, 'm) DataProvider_scheme \<Rightarrow> error + ('x, 'y, 'r, 'm) DataProvider_scheme)
     \<Rightarrow> ('x, 'y, 'r, 'm) DataProvider_scheme
     \<Rightarrow> error + ('x, 'y, 'r, 'm) DataProvider_scheme" where
  "new_epoch shuffle_method self =
     (let self' = self\<lparr>curr_batch := 0\<rparr>
      in if shuffle_order self' then shuffle_method self' else Inr self')"

definition DataProvider_reset ::
  "('r, 'z) numpy_random_scheme \<Rightarrow> ('x, 'y, 'r, 'm) DataProvider_scheme
     \<Rightarrow> error + ('x, 'y, 'r, 'm) DataProvider_scheme" where
  "DataProvider_reset np self =
     (let inv_perm = argsort (current_order self)
      in case take_rows (current_order self) inv_perm of
           Inl e \<Rightarrow> Inl e
         | Inr order \<Rightarrow>
             (case take_rows (inputs self) inv_perm of
                Inl e \<Rightarrow> Inl e
              | Inr xs \<Rightarrow>
                  (case take_rows (targets self) inv_perm of
                     Inl e \<Rightarrow> Inl e
                   | Inr ys \<Rightarrow>
                       new_epoch (DataProvider_shuffle np)
                         (self\<lparr>current_order := order, inputs := xs, targets := ys\<rparr>))))"

definition batch_slice :: "('x, 'y, 'r, 'm) DataProvider_scheme \<Rightarrow> int \<times> int" where
  "batch_slice self =
     (curr_batch self * batch_size self, (curr_batch self + 1) * batch_size self)"

definition DataProvider_next ::
  "('r, 'z) numpy_random_scheme \<Rightarrow> ('x, 'y, 'r, 'm) DataProvider_scheme
     \<Rightarrow> ('x list \<times> 'y list, ('x, 'y, 'r, 'm) DataProvider_scheme) next_result" where
  "DataProvider_next np self =
     (if curr_batch self + 1 > num_batches self then
        (case new_epoch (DataProvider_shuffle np) self of
           Inl e \<Rightarrow> Raised e
         | Inr self' \<Rightarrow> StopIteration self')
      else
        (let inputs_batch = py_slice (batch_slice self) (inputs self);
             targets_batch = py_slice (batch_slice self) (targets self)
         in Batch (inputs_batch, targets_batch)
              (self\<lparr>curr_batch := curr_batch self + 1\<rparr>)))"

text \<open>
  The constructor. \<open>ext\<close> holds the fields a subclass has set before it calls the
  parent constructor, and \<open>shuffle_method\<close> is the \<open>shuffle\<close> of the object's class.
\<close>

definition DataProvider_init ::
  "('r, 'z) numpy_random_scheme
     \<Rightarrow> (('x, 'y, 'r, 'm) DataProvider_scheme \<Rightarrow> error + ('x, 'y, 'r, 'm) DataProvider_scheme)
     \<Rightarrow> 'm \<Rightarrow> 'x list \<Rightarrow> 'y list \<Rightarrow> int \<Rightarrow> int \<Rightarrow> bool \<Rightarrow> 'r option
     \<Rightarrow> error + ('x, 'y, 'r, 'm) DataProvider_scheme" where
  "DataProvider_init np shuffle_method ext xs ys bs mnb shuf g =
     (if bs < 1 then Inl ValueError
      else if mnb = 0 \<or> mnb < - 1 then Inl ValueError
      else
        new_epoch shuffle_method
          (update_num_batches
             \<lparr>inputs = xs, targets = ys, batch_size = bs, max_num_batches = mnb,
              num_batches = 0, shuffle_order = shuf,
              current_order = [0..<length xs],
              rng = (case g of None \<Rightarrow> RandomState np DEFAULT_SEED | Some r \<Rightarrow> r),
              curr_batch = 0, \<dots> = ext\<rparr>))"

text \<open>
  The batches of one pass: \<open>next\<close> is called until it stops returning a batch, at most
  \<open>n\<close> times.
\<close>

fun batches_until_stop ::
  "('r, 'z) numpy_random_scheme \<Rightarrow> nat \<Rightarrow> ('x, 'y, 'r, 'm) DataProvider_scheme
     \<Rightarrow> ('x list \<times> 'y list) list" where
  "batches_until_stop np 0 self = []"
| "batches_until_stop np (Suc n) self =
     (case DataProvider_next np self of
        Batch b self' \<Rightarrow> b # batches_until_stop np n self'
      | StopIteration self' \<Rightarrow> []
      | Raised e \<Rightarrow> [])"

section \<open>The ASSISTments data provider\<close>

text \<open>
  \<open>ASSISTDataProvider\<close> extends \<open>DataProvider\<close>. Its inputs and its target ids are sparse
  matrices with one row per student (lists of rows, a row being the flattened
  \<open>max_num_ans \<times> dim\<close> block of the student); its targets are one list of labels per
  student. The counts \<open>max_num_ans\<close>, \<open>max_prob_set_id\<close> and \<open>encoding_dim\<close> are natural
  numbers. The fraction is kept as a rational number.
\<close>

record ('a, 't, 'r) ASSISTDataProvider = "('a list, 't list, 'r) DataProvider" +
  which_set :: string
  which_year :: string
  data_dir :: string
  num_classes :: nat
  fraction :: rat
  use_plus_minus_feats :: bool
  use_compressed_sensing :: bool
  target_ids :: "'a list list"
  max_num_ans :: nat
  max_prob_set_id :: nat
  encoding_dim :: nat
  compress_matrix :: "'a list list option"
  compress_dim :: "nat option"

text \<open>
  \<open>split_into n k xs\<close>: the \<open>n\<close> consecutive pieces of length \<open>k\<close> of the flat data \<open>xs\<close>,
  which is how a row-major \<open>reshape\<close> of \<open>n * k\<close> entries forms its leading axis.
\<close>

definition split_into :: "nat \<Rightarrow> nat \<Rightarrow> 'a list \<Rightarrow> 'a list list" where
  "split_into n k xs = map (\<lambda>i. take k (drop (i * k) xs)) [0..<n]"

text \<open>
  \<open>a.reshape(d0, d1, d2)\<close> on the flat data of \<open>a\<close>: \<open>ValueError\<close> unless the sizes agree.
\<close>

definition reshape3 :: "nat \<Rightarrow> nat \<Rightarrow> nat \<Rightarrow> 'a list \<Rightarrow> error + 'a list list list" where
  "reshape3 d0 d1 d2 flat =
     (if length flat \<noteq> d0 * d1 * d2 then Inl ValueError
      else Inr (map (split_into d1 d2) (split_into d0 (d1 * d2) flat)))"

text \<open>
  \<open>shuffle\<close> and \<open>reset\<close> of the subclass: as in the base class, with the target ids
  indexed by the same array.
\<close>

definition ASSIST_shuffle ::
  "('r, 'z) numpy_random_scheme \<Rightarrow> ('a, 't, 'r, 'm) ASSISTDataProvider_scheme
     \<Rightarrow> error + ('a, 't, 'r, 'm) ASSISTDataProvider_scheme" where
  "ASSIST_shuffle np self =
     (case permutation np (rng self) (length (inputs self)) of
        (perm, g) \<Rightarrow>
          (case take_rows (current_order self) perm of
             Inl e \<Rightarrow> Inl e
           | Inr order \<Rightarrow>
               (case take_rows (inputs self) perm of
                  Inl e \<Rightarrow> Inl e
                | Inr xs \<Rightarrow>
                    (case take_rows (targets self) perm of
                       Inl e \<Rightarrow> Inl e
                     | Inr ys \<Rightarrow>
                         (case take_rows (target_ids self) perm of
                            Inl e \<Rightarrow> Inl e
                          | Inr ids \<Rightarrow>
                              Inr (self\<lparr>rng := g, current_order := order, inputs := xs,
                                         targets := ys, target_ids := ids\<rparr>))))))"

definition ASSIST_reset ::
  "('r, 'z) numpy_random_scheme \<Rightarrow> ('a, 't, 'r, 'm) ASSISTDataProvider_scheme
     \<Rightarrow> error + ('a, 't, 'r, 'm) ASSISTDataProvider_scheme" where
  "ASSIST_reset np self =
     (let inv_perm = argsort (current_order self)
      in case take_rows (current_order self) inv_perm of
           Inl e \<Rightarrow> Inl e
         | Inr order \<Rightarrow>
             (case take_rows (inputs self) inv_perm of
                Inl e \<Rightarrow> Inl e
              | Inr xs \<Rightarrow>
                  (case take_rows (targets self) inv_perm of
                     Inl e \<Rightarrow> Inl e
                   | Inr ys \<Rightarrow>
                       (case take_rows (target_ids self) inv_perm of
                          Inl e \<Rightarrow> Inl e
                        | Inr ids \<Rightarrow>
                            new_epoch (ASSIST_shuffle np)
                              (self\<lparr>current_order := order, inputs := xs,
                                    targets := ys, target_ids := ids\<rparr>)))))"

text \<open>
  \<open>transform_batch\<close>: the inputs are densified and reshaped to
  \<open>(batch_size, max_num_ans, encoding_dim)\<close>, the target lists are flattened, and the
  target ids are densified and flattened with \<open>reshape(-1)\<close>. A negative \<open>batch_size\<close>
  (which neither the constructor nor the setter lets through) is a \<open>ValueError\<close> of the
  reshape. The conversions to \<open>float32\<close> and \<open>int32\<close> are not modelled.
\<close>

definition transform_batch ::
  "('a, 't, 'r, 'm) ASSISTDataProvider_scheme \<Rightarrow> 'a list list \<Rightarrow> 'a list list \<Rightarrow> 't list list
     \<Rightarrow> error + ('a list list list \<times> 'a list \<times> 't list)" where
  "transform_batch self inputs_batch target_ids_batch targets_batch =
     (if batch_size self < 0 then Inl ValueError
      else
        (case reshape3 (nat (batch_size self)) (max_num_ans self) (encoding_dim self)
                (concat inputs_batch) of
           Inl e \<Rightarrow> Inl e
         | Inr batch_inputs \<Rightarrow>
             (let batch_targets = concat targets_batch;
                  batch_target_ids = concat target_ids_batch
              in Inr (batch_inputs, batch_target_ids, batch_targets))))"

text \<open>
  \<open>next\<close> of the subclass. The cursor is advanced before \<open>transform_batch\<close> runs; the
  result is the triple \<open>(batch_inputs, batch_targets, batch_target_ids)\<close>.
\<close>

definition ASSIST_next ::
  "('r, 'z) numpy_random_scheme \<Rightarrow> ('a, 't, 'r, 'm) ASSISTDataProvider_scheme
     \<Rightarrow> ('a list list list \<times> 't list \<times> 'a list,
         ('a, 't, 'r, 'm) ASSISTDataProvider_scheme) next_result" where
  "ASSIST_next np self =
     (if curr_batch self + 1 > num_batches self then
        (case new_epoch (ASSIST_shuffle np) self of
           Inl e \<Rightarrow> Raised e
         | Inr self' \<Rightarrow> StopIteration self')
      else
        (let inputs_batch = py_slice (batch_slice self) (inputs self);
             targets_batch = py_slice (batch_slice self) (targets self);
             target_ids_batch = py_slice (batch_slice self) (target_ids self);
             self' = self\<lparr>curr_batch := curr_batch self + 1\<rparr>
         in case transform_batch self' inputs_batch target_ids_batch targets_batch of
              Inl e \<Rightarrow> Raised e
            | Inr (batch_inputs, batch_target_ids, batch_targets) \<Rightarrow>
                Batch (batch_inputs, batch_targets, batch_target_ids) self'))"

subsection \<open>Truncation of the sequences\<close>

text \<open>
  \<open>range(start, stop, step)\<close> as the list of its values; a zero step raises
  \<open>ValueError\<close>.
\<close>

definition py_range :: "int \<Rightarrow> int \<Rightarrow> int \<Rightarrow> error + int list" where
  "py_range start stop step =
     (if step = 0 then Inl ValueError
      else if 0 < step then
        Inr (map (\<lambda>k. start + int k * step) [0..<nat ((stop - start + step - 1) div step)])
      else
        Inr (map (\<lambda>k. start + int k * step) [0..<nat ((start - stop - step - 1) div (- step))]))"

text \<open>
  \<open>_truncate_targets\<close>: for every student, the slices \<open>student[i:i + threshold]\<close> for
  \<open>i\<close> in \<open>range(0, len(student), threshold)\<close>, appended to \<open>new_targets\<close> in this
  order. The conversion \<open>np.array(new_targets)\<close> is not modelled.
\<close>

definition truncate_student :: "'t list \<Rightarrow> int \<Rightarrow> error + 't list list" where
  "truncate_student student threshold =
     (case py_range 0 (int (length student)) threshold of
        Inl e \<Rightarrow> Inl e
      | Inr starts \<Rightarrow> Inr (map (\<lambda>i. py_slice (i, i + threshold) student) starts))"

fun truncate_targets_loop ::
  "'t list list \<Rightarrow> 't list list \<Rightarrow> int \<Rightarrow> error + 't list list" where
  "truncate_targets_loop new_targets [] threshold = Inr new_targets"
| "truncate_targets_loop new_targets (student # rest) threshold =
     (case truncate_student student threshold of
        Inl e \<Rightarrow> Inl e
      | Inr slices \<Rightarrow> truncate_targets_loop (new_targets @ slices) rest threshold)"

definition truncate_targets :: "'t list list \<Rightarrow> int \<Rightarrow> error + 't list list" where
  "truncate_targets targs threshold = truncate_targets_loop [] targs threshold"

text \<open>
  One step of the loop of \<open>_truncate_inputs_or_ids\<close>, on a block \<open>x\<close> of at most 1000
  rows (never empty, since the loop runs over \<open>range(0, shape[0], 1000)\<close>):
  \<^item> \<open>x.reshape(x.shape[0], max_num_ans, final_dim)\<close> needs matching sizes;
  \<^item> \<open>pad_size = threshold - max_num_ans % threshold\<close> divides by \<open>threshold\<close>
    (\<open>ZeroDivisionError\<close>), and \<open>np.pad\<close> refuses a negative width (\<open>ValueError\<close>),
    which is what a negative threshold gives;
  \<^item> the padding appends \<open>pad_size\<close> zero rows of \<open>final_dim\<close> entries to every student;
  \<^item> \<open>reshape(-1, threshold, final_dim)\<close> infers the number of chunks and refuses a
    known size of zero or one that does not divide the data;
  \<^item> a chunk is kept when one of its entries differs from zero;
  \<^item> \<open>reshape(num_effective_students, -1)\<close> refuses \<open>num_effective_students = 0\<close>.
\<close>

definition truncate_block ::
  "nat \<Rightarrow> nat \<Rightarrow> int \<Rightarrow> ('a::zero) list list \<Rightarrow> error + 'a list list" where
  "truncate_block mna final_dim threshold x =
     (if length (concat x) \<noteq> length x * mna * final_dim then Inl ValueError
      else if threshold = 0 then Inl ZeroDivisionError
      else
        (let pad_size = threshold - int mna mod threshold
         in if pad_size < 0 then Inl ValueError
            else
              (let students = split_into (length x) (mna * final_dim) (concat x);
                   padded = map (\<lambda>row. row @ replicate (nat pad_size * final_dim) 0) students;
                   flat = concat padded;
                   chunk = nat threshold * final_dim
               in if chunk = 0 \<or> length flat mod chunk \<noteq> 0 then Inl ValueError
                  else
                    (let new_x = split_into (length flat div chunk) chunk flat;
                         kept = filter (list_ex (\<lambda>v. v \<noteq> 0)) new_x;
                         num_effective_students = length kept
                     in if num_effective_students = 0 then Inl ValueError
                        else Inr kept))))"

text \<open>
  The loop over the blocks \<open>input_or_id[i:i + 1000]\<close>, and \<open>sp.vstack\<close> of the results,
  which raises \<open>ValueError\<close> on the empty list.
\<close>

fun truncate_blocks_loop ::
  "nat \<Rightarrow> nat \<Rightarrow> int \<Rightarrow> ('a::zero) list list \<Rightarrow> 'a list list list \<Rightarrow> int list
     \<Rightarrow> error + 'a list list list" where
  "truncate_blocks_loop mna final_dim threshold input_or_id list_of_truncated_seqs [] =
     Inr list_of_truncated_seqs"
| "truncate_blocks_loop mna final_dim threshold input_or_id list_of_truncated_seqs (i # rest) =
     (case truncate_block mna final_dim threshold (py_slice (i, i + 1000) input_or_id) of
        Inl e \<Rightarrow> Inl e
      | Inr seqs \<Rightarrow>
          truncate_blocks_loop mna final_dim threshold input_or_id
            (list_of_truncated_seqs @ [seqs]) rest)"

definition truncate_inputs_or_ids ::
  "nat \<Rightarrow> ('a::zero) list list \<Rightarrow> nat \<Rightarrow> int \<Rightarrow> error + 'a list list" where
  "truncate_inputs_or_ids mna input_or_id final_dim threshold =
     (case py_range 0 (int (length input_or_id)) 1000 of
        Inl e \<Rightarrow> Inl e
      | Inr starts \<Rightarrow>
          (case truncate_blocks_loop mna final_dim threshold input_or_id [] starts of
             Inl e \<Rightarrow> Inl e
           | Inr list_of_truncated_seqs \<Rightarrow>
               (if list_of_truncated_seqs = [] then Inl ValueError
                else Inr (concat list_of_truncated_seqs))))"

text \<open>
  \<open>truncate_sequences\<close>: the threshold used is \<open>min(max_num_ans, threshold)\<close>; the inputs
  are cut with \<open>encoding_dim\<close>, the target ids with \<open>max_prob_set_id\<close>, the targets by
  slicing.
\<close>

definition truncate_sequences ::
  "('a::zero, 't, 'r, 'm) ASSISTDataProvider_scheme \<Rightarrow> 'a list list \<Rightarrow> 'a list list
     \<Rightarrow> 't list list \<Rightarrow> int
     \<Rightarrow> error + ('a list list \<times> 'a list list \<times> 't list list \<times> int)" where
  "truncate_sequences self xs ids targs threshold =
     (let threshold' = min (int (max_num_ans self)) threshold
      in case truncate_inputs_or_ids (max_num_ans self) xs (encoding_dim self) threshold' of
           Inl e \<Rightarrow> Inl e
         | Inr xs' \<Rightarrow>
             (case truncate_inputs_or_ids (max_num_ans self) ids (max_prob_set_id self)
                     threshold' of
                Inl e \<Rightarrow> Inl e
              | Inr ids' \<Rightarrow>
                  (case truncate_targets targs threshold' of
                     Inl e \<Rightarrow> Inl e
                   | Inr targs' \<Rightarrow> Inr (xs', ids', targs', threshold'))))"

subsection \<open>Construction\<close>

text \<open>
  \<open>_validate_inputs\<close>: four assertions, in this order (Python runs them unless it is
  started with \<open>-O\<close>; the model takes them as enabled). \<open>os.path.isfile\<close> holds of the
  paths the world has a file at.
\<close>

definition validate_inputs ::
  "('a, 't, 'r) world \<Rightarrow> string \<Rightarrow> string \<Rightarrow> string \<Rightarrow> error + unit" where
  "validate_inputs w wset wyear data_path =
     (if wset \<notin> set [''train'', ''test''] then Inl AssertionError
      else if wyear \<notin> set [''09'', ''15''] then Inl AssertionError
      else if \<not> isfile w (data_path @ ''-inputs.npz'') then Inl AssertionError
      else if \<not> isfile w (data_path @ ''-targets.npz'') then Inl AssertionError
      else Inr ())"

text \<open>
  \<open>load_data\<close>: the targets archive, the input matrix of the chosen encoding and the
  target-id matrix. The result lists the inputs, the targets, and the attributes the
  method sets: \<open>target_ids\<close>, \<open>max_num_ans\<close>, \<open>max_prob_set_id\<close>, \<open>encoding_dim\<close>. A
  missing file is a \<open>FileNotFoundError\<close>; a file of the wrong kind fails at the first
  lookup (\<open>KeyError\<close> for the archive, \<open>ValueError\<close> for a sparse matrix).
\<close>

definition load_sparse :: "('a, 't, 'r) world \<Rightarrow> string \<Rightarrow> error + 'a list list" where
  "load_sparse w path =
     (case files w path of
        None \<Rightarrow> Inl FileNotFoundError
      | Some (SparseNpz m) \<Rightarrow> Inr m
      | Some _ \<Rightarrow> Inl ValueError)"

definition load_data ::
  "('a, 't, 'r) world \<Rightarrow> string \<Rightarrow> bool
     \<Rightarrow> error + ('a list list \<times> 't list list \<times> 'a list list \<times> nat \<times> nat \<times> nat)" where
  "load_data w data_path pm =
     (case files w (data_path @ ''-targets.npz'') of
        None \<Rightarrow> Inl FileNotFoundError
      | Some (TargetsNpz mna mpsi targs) \<Rightarrow>
          (case load_sparse w (data_path @ (if pm then ''-inputs-plus-minus.npz''
                                            else ''-inputs.npz'')) of
             Inl e \<Rightarrow> Inl e
           | Inr xs \<Rightarrow>
               (let ed = (if pm then mpsi + 1 else 2 * mpsi + 1)
                in case load_sparse w (data_path @ ''-targetids.npz'') of
                     Inl e \<Rightarrow> Inl e
                   | Inr ids \<Rightarrow> Inr (xs, targs, ids, mna, mpsi, ed)))
      | Some _ \<Rightarrow> Inl KeyError)"

text \<open>
  \<open>reduce_data\<close>: the first \<open>num_data = int(shape[0] * fraction)\<close> rows of the inputs, of
  the targets and of the target ids; the number is computed by the library.
\<close>

definition reduce_data ::
  "('a, 'r, 'z) library_scheme \<Rightarrow> 'a list list \<Rightarrow> 't list list \<Rightarrow> 'a list list \<Rightarrow> rat
     \<Rightarrow> 'a list list \<times> 't list list \<times> 'a list list" where
  "reduce_data lib xs targs ids fr =
     (let num_data = int_of_product lib (length xs) fr
      in (py_slice (0, num_data) xs, py_slice (0, num_data) targs, py_slice (0, num_data) ids))"

text \<open>
  \<open>compress_inputs\<close>: the dense inputs are reshaped to \<open>(-1, encoding_dim)\<close>, multiplied
  by the compression matrix, and reshaped to \<open>(num_students, -1)\<close>. Each reshape with an
  inferred axis refuses a known size of zero or one that does not divide the data, and
  \<open>np.dot\<close> refuses an inner dimension other than the number of rows of the matrix.
\<close>

definition compress_inputs ::
  "('a, 'r, 'z) library_scheme \<Rightarrow> nat \<Rightarrow> 'a list list \<Rightarrow> 'a list list
     \<Rightarrow> error + 'a list list" where
  "compress_inputs lib ed cm xs =
     (let num_students = length xs; flat = concat xs
      in if ed = 0 \<or> length flat mod ed \<noteq> 0 then Inl ValueError
         else if ed \<noteq> length cm then Inl ValueError
         else
           (let product = concat (dot lib (split_into (length flat div ed) ed flat) cm)
            in if num_students = 0 \<or> length product mod num_students \<noteq> 0 then Inl ValueError
               else Inr (split_into num_students (length product div num_students) product)))"

text \<open>
  \<open>make_compression_matrix\<close>: a matrix of \<open>encoding_dim \<times> 100\<close> samples, drawn from the
  generator that was passed or else from the global one, and saved under the training
  path (\<open>np.savez\<close> appends \<open>.npz\<close>). The result is the matrix, the generator passed
  (advanced when it was used) and the world.
\<close>

definition make_compression_matrix ::
  "('a, 'r, 'z) library_scheme \<Rightarrow> ('a, 't, 'r) world \<Rightarrow> string \<Rightarrow> nat \<Rightarrow> 'r option
     \<Rightarrow> 'a list list \<times> 'r option \<times> ('a, 't, 'r) world" where
  "make_compression_matrix lib w train_path ed g =
     (case g of
        Some r \<Rightarrow>
          (case randn lib r ed 100 of
             (m, r') \<Rightarrow>
               (m, Some r',
                w\<lparr>files := (files w)(train_path @ ''-compression-matrix'' @ ''.npz''
                                        \<mapsto> CompressionNpz m)\<rparr>))
      | None \<Rightarrow>
          (case randn lib (global_random w) ed 100 of
             (m, r') \<Rightarrow>
               (m, None,
                w\<lparr>global_random := r',
                  files := (files w)(train_path @ ''-compression-matrix'' @ ''.npz''
                                        \<mapsto> CompressionNpz m)\<rparr>)))"

text \<open>
  \<open>apply_compressed_sensing\<close>. For the test split the matrix is loaded from the training
  path; for the training split it is made. The arguments are the attributes the method
  reads (\<open>data_dir\<close>, \<open>which_set\<close>, \<open>which_year\<close>, \<open>encoding_dim\<close>); the result lists the
  compressed inputs and the attributes it sets (\<open>encoding_dim\<close>, \<open>compress_matrix\<close>,
  \<open>compress_dim\<close>), the generator passed, and the world, which is returned with an
  error as well since a matrix may have been written before the error. With any other
  \<open>which_set\<close> no matrix is set and \<open>compress_inputs\<close> fails on the missing attribute.
\<close>

definition apply_compressed_sensing ::
  "('a, 'r, 'z) library_scheme \<Rightarrow> ('a, 't, 'r) world \<Rightarrow> string \<Rightarrow> string \<Rightarrow> string \<Rightarrow> nat
     \<Rightarrow> 'a list list \<Rightarrow> 'r option
     \<Rightarrow> (error + ('a list list \<times> nat \<times> 'a list list \<times> nat \<times> 'r option)) \<times> ('a, 't, 'r) world" where
  "apply_compressed_sensing lib w ddir wset wyear ed xs g =
     (let train_path = path_join ddir (''assist'' @ wyear @ ''-'' @ ''train'')
      in if wset = ''test'' then
           (case files w (train_path @ ''-compression-matrix.npz'') of
              None \<Rightarrow> (Inl FileNotFoundError, w)
            | Some (CompressionNpz cm) \<Rightarrow>
                (let cdim = (case cm of [] \<Rightarrow> 0 | row # _ \<Rightarrow> length row)
                 in case compress_inputs lib ed cm xs of
                      Inl e \<Rightarrow> (Inl e, w)
                    | Inr xs' \<Rightarrow> (Inr (xs', cdim, cm, cdim, g), w))
            | Some _ \<Rightarrow> (Inl KeyError, w))
         else if wset = ''train'' then
           (case make_compression_matrix lib w train_path ed g of
              (cm, g', w') \<Rightarrow>
                (case compress_inputs lib ed cm xs of
                   Inl e \<Rightarrow> (Inl e, w')
                 | Inr xs' \<Rightarrow> (Inr (xs', 100, cm, 100, g'), w')))
         else (Inl AttributeError, w))"

text \<open>
  The fold data bundle: the dictionary \<open>data\<close> that \<open>_get_k_folds\<close> hands to the
  constructor.
\<close>

record ('a, 't) fold_data =
  data_inputs :: "'a list list"
  data_targets :: "'t list list"
  data_target_ids :: "'a list list"
  data_max_num_ans :: nat
  data_max_prob_set_id :: nat
  data_encoding_dim :: nat

text \<open>
  The constructor. The path is built and validated first; then the attributes come from
  the bundle, or from the files (load, reduce, and compress if asked); then the parent
  constructor runs, with the \<open>shuffle\<close> of this class. The result carries the world,
  since the compression matrix may have been written.
\<close>

definition ASSIST_init ::
  "('a, 'r, 'z) library_scheme \<Rightarrow> ('a, 't, 'r) world \<Rightarrow> string \<Rightarrow> string \<Rightarrow> string \<Rightarrow> rat
     \<Rightarrow> bool \<Rightarrow> bool \<Rightarrow> int \<Rightarrow> int \<Rightarrow> bool \<Rightarrow> 'r option \<Rightarrow> ('a, 't) fold_data option
     \<Rightarrow> (error + ('a, 't, 'r) ASSISTDataProvider) \<times> ('a, 't, 'r) world" where
  "ASSIST_init lib w ddir wset wyear fr pm cs bs mnb shuf g data =
     (let expanded_data_dir = expanduser lib ddir;
          data_path = path_join expanded_data_dir (''assist'' @ wyear @ ''-'' @ wset)
      in case validate_inputs w wset wyear data_path of
           Inl e \<Rightarrow> (Inl e, w)
         | Inr _ \<Rightarrow>
             (case data of
                Some d \<Rightarrow>
                  (DataProvider_init lib (ASSIST_shuffle lib)
                     (ASSISTDataProvider.fields wset wyear expanded_data_dir 2 fr pm cs
                        (data_target_ids d) (data_max_num_ans d) (data_max_prob_set_id d)
                        (data_encoding_dim d) None None)
                     (data_inputs d) (data_targets d) bs mnb shuf g, w)
              | None \<Rightarrow>
                  (case load_data w data_path pm of
                     Inl e \<Rightarrow> (Inl e, w)
                   | Inr (xs, targs, ids, mna, mpsi, ed) \<Rightarrow>
                       (case reduce_data lib xs targs ids fr of
                          (xs1, targs1, ids1) \<Rightarrow>
                            (if cs then
                               (case apply_compressed_sensing lib w expanded_data_dir wset wyear
                                       ed xs1 g of
                                  (Inl e, w') \<Rightarrow> (Inl e, w')
                                | (Inr (xs2, ed2, cm, cdim, g'), w') \<Rightarrow>
                                    (DataProvider_init lib (ASSIST_shuffle lib)
                                       (ASSISTDataProvider.fields wset wyear expanded_data_dir 2
                                          fr pm cs ids1 mna mpsi ed2 (Some cm) (Some cdim))
                                       xs2 targs1 bs mnb shuf g', w'))
                             else
                               (DataProvider_init lib (ASSIST_shuffle lib)
                                  (ASSISTDataProvider.fields wset wyear expanded_data_dir 2
                                     fr pm cs ids1 mna mpsi ed None None)
                                  xs1 targs1 bs mnb shuf g, w))))))"

subsection \<open>Fold splitting\<close>

text \<open>
  Modelled from the spec: \<open>sklearn.model_selection.KFold\<close>, whose \<open>split\<close> gives
  \<open>_get_k_folds\<close> its index pairs, is a library and not among the sources. The
  specification describes it as a deterministic contiguous-block k-fold scheme without
  shuffling, producing \<open>k\<close> (train, validation) row-index pairs. The model takes the
  blocks in row order, the first \<open>n mod k\<close> of them one row longer than the others, the
  training indices of a fold being all other rows in increasing order; fewer than two
  folds, or more folds than rows, is a \<open>ValueError\<close>.
\<close>

definition fold_start :: "nat \<Rightarrow> nat \<Rightarrow> nat \<Rightarrow> nat" where
  "fold_start n k i = i * (n div k) + min i (n mod k)"

definition kfold_split :: "int \<Rightarrow> nat \<Rightarrow> error + (nat list \<times> nat list) list" where
  "kfold_split k n =
     (if k \<le> 1 then Inl ValueError
      else if int n < k then Inl ValueError
      else Inr (map (\<lambda>i. ([0..<fold_start n (nat k) i] @ [fold_start n (nat k) (i + 1)..<n],
                            [fold_start n (nat k) i..<fold_start n (nat k) (i + 1)]))
                  [0..<nat k]))"

text \<open>
  The body of the loop of \<open>_get_k_folds\<close>, up to the two bundles. The rows of the inputs,
  the targets and the target ids are selected by the same two index arrays. The variable
  \<open>threshold\<close> is tested for truth (neither \<open>None\<close> nor \<open>0\<close>), and it is assigned in both
  branches, so the value one fold leaves is the value the next fold tests.
\<close>

definition select_fold ::
  "('a, 't, 'r, 'm) ASSISTDataProvider_scheme \<Rightarrow> nat list \<times> nat list
     \<Rightarrow> error + (('a list list \<times> 't list list \<times> 'a list list)
                 \<times> ('a list list \<times> 't list list \<times> 'a list list))" where
  "select_fold self idx =
     (case take_rows (inputs self) (fst idx) of Inl e \<Rightarrow> Inl e | Inr inputs_train \<Rightarrow>
      case take_rows (inputs self) (snd idx) of Inl e \<Rightarrow> Inl e | Inr inputs_val \<Rightarrow>
      case take_rows (targets self) (fst idx) of Inl e \<Rightarrow> Inl e | Inr targets_train \<Rightarrow>
      case take_rows (targets self) (snd idx) of Inl e \<Rightarrow> Inl e | Inr targets_val \<Rightarrow>
      case take_rows (target_ids self) (fst idx) of Inl e \<Rightarrow> Inl e | Inr target_ids_train \<Rightarrow>
      case take_rows (target_ids self) (snd idx) of Inl e \<Rightarrow> Inl e | Inr target_ids_val \<Rightarrow>
        Inr ((inputs_train, targets_train, target_ids_train),
             (inputs_val, targets_val, target_ids_val)))"

definition truthy :: "int option \<Rightarrow> bool" where
  "truthy threshold = (case threshold of None \<Rightarrow> False | Some t \<Rightarrow> t \<noteq> 0)"

definition fold_bundles ::
  "('a::zero, 't, 'r, 'm) ASSISTDataProvider_scheme \<Rightarrow> nat list \<times> nat list \<Rightarrow> int option
     \<Rightarrow> error + (('a, 't) fold_data \<times> ('a, 't) fold_data) \<times> int option" where
  "fold_bundles self idx threshold =
     (case select_fold self idx of
        Inl e \<Rightarrow> Inl e
      | Inr ((inputs_train, targets_train, target_ids_train),
             (inputs_val, targets_val, target_ids_val)) \<Rightarrow>
          (if truthy threshold then
             (case truncate_sequences self inputs_train target_ids_train targets_train
                     (the threshold) of
                Inl e \<Rightarrow> Inl e
              | Inr (inputs_train', target_ids_train', targets_train', threshold') \<Rightarrow>
                  (case truncate_sequences self inputs_val target_ids_val targets_val
                          threshold' of
                     Inl e \<Rightarrow> Inl e
                   | Inr (inputs_val', target_ids_val', targets_val', threshold'') \<Rightarrow>
                       Inr ((\<lparr>data_inputs = inputs_train', data_targets = targets_train',
                               data_target_ids = target_ids_train',
                               data_max_num_ans = nat threshold'',
                               data_max_prob_set_id = max_prob_set_id self,
                               data_encoding_dim = encoding_dim self\<rparr>,
                             \<lparr>data_inputs = inputs_val', data_targets = targets_val',
                               data_target_ids = target_ids_val',
                               data_max_num_ans = nat threshold'',
                               data_max_prob_set_id = max_prob_set_id self,
                               data_encoding_dim = encoding_dim self\<rparr>),
                            Some threshold'')))
           else
             Inr ((\<lparr>data_inputs = inputs_train, data_targets = targets_train,
                     data_target_ids = target_ids_train,
                     data_max_num_ans = max_num_ans self,
                     data_max_prob_set_id = max_prob_set_id self,
                     data_encoding_dim = encoding_dim self\<rparr>,
                   \<lparr>data_inputs = inputs_val, data_targets = targets_val,
                     data_target_ids = target_ids_val,
                     data_max_num_ans = max_num_ans self,
                     data_max_prob_set_id = max_prob_set_id self,
                     data_encoding_dim = encoding_dim self\<rparr>),
                  Some (int (max_num_ans self)))))"

text \<open>
  The two providers of a fold. Both are built with the generator object of the
  originating provider; the model hands the generator on: the validation provider
  starts from the state the training provider's construction left, and the originating
  provider continues from the state the validation provider's construction left.
\<close>

definition fold_providers ::
  "('a, 'r, 'z) library_scheme \<Rightarrow> ('a, 't, 'r) world \<Rightarrow> ('a, 't, 'r) ASSISTDataProvider
     \<Rightarrow> ('a, 't) fold_data \<times> ('a, 't) fold_data
     \<Rightarrow> error + (('a, 't, 'r) ASSISTDataProvider \<times> ('a, 't, 'r) ASSISTDataProvider)
                \<times> ('a, 't, 'r) ASSISTDataProvider" where
  "fold_providers lib w self bundles =
     (case fst (ASSIST_init lib w (data_dir self) (which_set self) (which_year self)
                  (fraction self) (use_plus_minus_feats self) (use_compressed_sensing self)
                  (batch_size self) (max_num_batches self) (shuffle_order self)
                  (Some (rng self)) (Some (fst bundles))) of
        Inl e \<Rightarrow> Inl e
      | Inr train_dp \<Rightarrow>
          (case fst (ASSIST_init lib w (data_dir self) (which_set self) (which_year self)
                       (fraction self) (use_plus_minus_feats self) (use_compressed_sensing self)
                       (batch_size self) (max_num_batches self) (shuffle_order self)
                       (Some (rng train_dp)) (Some (snd bundles))) of
             Inl e \<Rightarrow> Inl e
           | Inr val_dp \<Rightarrow> Inr ((train_dp, val_dp), self\<lparr>rng := rng val_dp\<rparr>)))"

text \<open>
  The generator \<open>_get_k_folds\<close>, as the list of the pairs it yields when it is run to
  its end; an exception ends it. \<open>train_validation_split\<close> runs it for one pair only
  (a split into five folds that succeeds has a first fold, so the pair exists).
\<close>

fun get_k_folds_loop ::
  "('a::zero, 'r, 'z) library_scheme \<Rightarrow> ('a, 't, 'r) world \<Rightarrow> ('a, 't, 'r) ASSISTDataProvider
     \<Rightarrow> (nat list \<times> nat list) list \<Rightarrow> int option
     \<Rightarrow> error + (('a, 't, 'r) ASSISTDataProvider \<times> ('a, 't, 'r) ASSISTDataProvider) list" where
  "get_k_folds_loop lib w self [] threshold = Inr []"
| "get_k_folds_loop lib w self (idx # rest) threshold =
     (case fold_bundles self idx threshold of
        Inl e \<Rightarrow> Inl e
      | Inr (bundles, threshold') \<Rightarrow>
          (case fold_providers lib w self bundles of
             Inl e \<Rightarrow> Inl e
           | Inr (pair, self') \<Rightarrow>
               (case get_k_folds_loop lib w self' rest threshold' of
                  Inl e \<Rightarrow> Inl e
                | Inr pairs \<Rightarrow> Inr (pair # pairs))))"


definition train_validation_split ::
  "('a::zero, 'r, 'z) library_scheme \<Rightarrow> ('a, 't, 'r) world \<Rightarrow> ('a, 't, 'r) ASSISTDataProvider
     \<Rightarrow> int option
     \<Rightarrow> error + (('a, 't, 'r) ASSISTDataProvider \<times> ('a, 't, 'r) ASSISTDataProvider)" where
  "train_validation_split lib w self threshold =
     (if which_set self \<noteq> ''train'' then Inl AssertionError
      else
        (case kfold_split 5 (length (inputs self)) of
           Inl e \<Rightarrow> Inl e
         | Inr folds \<Rightarrow>
             (case get_k_folds_loop lib w self (take 1 folds) threshold of
                Inl e \<Rightarrow> Inl e
              | Inr pairs \<Rightarrow> Inr (hd pairs))))"

text \<open>
  The chunks of one student, as the specification words them: the student's block of
  \<open>max_num_ans\<close> answers is right-padded with \<open>t - max_num_ans mod t\<close> zero answers and
  split into chunks of \<open>t\<close> answers, each answer taking \<open>fdim\<close> entries. A chunk is
  non-zero when one of its entries is not zero.
\<close>

definition student_chunks :: "nat \<Rightarrow> nat \<Rightarrow> nat \<Rightarrow> ('a::zero) list \<Rightarrow> 'a list list" where
  "student_chunks mna fdim t row =
     split_into (mna div t + 1) (t * fdim) (row @ replicate ((t - mna mod t) * fdim) 0)"

definition nonzero_chunk :: "('a::zero) list \<Rightarrow> bool" where
  "nonzero_chunk chunk = list_ex (\<lambda>v. v \<noteq> 0) chunk"





text \<open>
  The consecutive slices of size \<open>t\<close> of a sequence, as the specification words them:
  slice \<open>k\<close> starts at position \<open>k * t\<close>, and there are as many slices as are needed to
  cover the sequence. This is what \<open>_truncate_targets\<close> is compared with.
\<close>

definition consecutive_slices :: "nat \<Rightarrow> 't list \<Rightarrow> 't list list" where
  "consecutive_slices t student =
     map (\<lambda>k. take t (drop (k * t) student)) [0..<(length student + t - 1) div t]"

text \<open>
  The invariant of a provider between calls: the batch size is positive, the cursor lies
  between \<open>0\<close> and \<open>num_batches\<close>, the batches of an epoch fit into the rows, the
  order array has one entry per row, and a provider that shuffles has a target for every
  row. The constructor establishes it and \<open>next\<close> keeps it.
\<close>

definition provider_ok :: "('x, 'y, 'r, 'm) DataProvider_scheme \<Rightarrow> bool" where
  "provider_ok self =
     (1 \<le> batch_size self \<and> 0 \<le> curr_batch self \<and> curr_batch self \<le> num_batches self \<and>
      num_batches self * batch_size self \<le> int (length (inputs self)) \<and>
      length (current_order self) = length (inputs self) \<and>
      (shuffle_order self \<longrightarrow> length (inputs self) \<le> length (targets self)))"

section \<open>Concrete library instances for the examples\<close>

text \<open>A generator whose every draw is the reversal \<open>n-1, ..., 0\<close>.\<close>

definition reversing_generator :: "unit numpy_random" where
  "reversing_generator =
     \<lparr>permutation = (\<lambda>g n. (rev [0..<n], g)), RandomState = (\<lambda>seed. ())\<rparr>"

text \<open>
  Three students with at most two answers each, one problem set and one-column
  encodings: the first student has answered once, the second twice, the third never.
\<close>

definition example_provider :: "(int, bool, unit) ASSISTDataProvider" where
  "example_provider =
     \<lparr>inputs = [[1, 0], [1, 1], [0, 0]], targets = [[True], [True, False], []],
      batch_size = 1, max_num_batches = - 1, num_batches = 3, shuffle_order = False,
      current_order = [0, 1, 2], rng = (), curr_batch = 0,
      which_set = ''train'', which_year = ''09'', data_dir = ''data'', num_classes = 2,
      fraction = 1, use_plus_minus_feats = False, use_compressed_sensing = False,
      target_ids = [[1, 0], [1, 1], [0, 0]], max_num_ans = 2, max_prob_set_id = 1,
      encoding_dim = 1, compress_matrix = None, compress_dim = None\<rparr>"

text \<open>
  A library over integer entries: draws are reversals, \<open>randn\<close> gives a matrix of ones,
  \<open>dot\<close> is the matrix product, \<open>int_of_product\<close> rounds the exact product towards zero,
  and \<open>expanduser\<close> leaves the path alone.
\<close>

definition int_of_rat :: "rat \<Rightarrow> int" where
  "int_of_rat q = (if 0 \<le> q then \<lfloor>q\<rfloor> else \<lceil>q\<rceil>)"

definition int_dot :: "int list list \<Rightarrow> int list list \<Rightarrow> int list list" where
  "int_dot a b =
     map (\<lambda>row. map (\<lambda>j. sum_list (map2 (*) row (map (\<lambda>r. r ! j) b)))
                    [0..<(case b of [] \<Rightarrow> 0 | r # _ \<Rightarrow> length r)]) a"

definition example_library :: "(int, unit) library" where
  "example_library =
     \<lparr>permutation = (\<lambda>g n. (rev [0..<n], g)), RandomState = (\<lambda>seed. ()),
      randn = (\<lambda>g m n. (replicate m (replicate n 1), g)), dot = int_dot,
      int_of_product = (\<lambda>n f. int_of_rat (of_nat n * f)),
      expanduser = (\<lambda>path. path)\<rparr>"

text \<open>
  A world that holds the test split of two students (one problem set, at most two
  answers, inputs of width \<open>2 * 3\<close>) and no compression matrix.
\<close>

definition example_world :: "(int, bool, unit) world" where
  "example_world =
     \<lparr>files =
        [''data/assist09-test-inputs.npz'' \<mapsto> SparseNpz [[0, 1, 0, 0, 0, 0], [0, 0, 1, 0, 1, 0]],
         ''data/assist09-test-targets.npz'' \<mapsto> TargetsNpz 2 1 [[True], [False, True]],
         ''data/assist09-test-targetids.npz'' \<mapsto> SparseNpz [[1, 0], [1, 1]]],
      global_random = ()\<rparr>"

definition example_fold_data :: "(int, bool) fold_data" where
  "example_fold_data =
     \<lparr>data_inputs = [[1, 0], [1, 1]], data_targets = [[True], [True, False]],
      data_target_ids = [[1, 0], [1, 1]], data_max_num_ans = 2, data_max_prob_set_id = 1,
      data_encoding_dim = 1\<rparr>"

text \<open>
  The example world with the compression matrix of an earlier training run stored at
  the training split's path: three rows for the encoding width and two columns.
\<close>

definition example_world_with_matrix :: "(int, bool, unit) world" where
  "example_world_with_matrix =
     example_world\<lparr>files := (files example_world)
        (''data/assist09-train-compression-matrix.npz'' \<mapsto> CompressionNpz [[1, 0], [0, 1], [1, 1]])\<rparr>"



section \<open>Properties of the generic data provider\<close>

lemma clamp_index_nonneg: "0 \<le> i \<Longrightarrow> clamp_index i n = min (nat i) n"
  by (simp add: clamp_index_def)

lemma py_slice_nat:
  "py_slice (int a, int b) xs = take (b - a) (drop a xs)"
  by (cases "a \<le> length xs") (simp_all add: py_slice_def clamp_index_def Let_def min_def)

lemma take_drop_nth:
  assumes "b \<le> length xs"
  shows "take (b - a) (drop a xs) = map (\<lambda>j. xs ! j) [a..<b]"
proof (cases "a \<le> b")
  case True
  have "take (b - a) (drop a xs) = take (b - a) (drop a (map (\<lambda>j. xs ! j) [0..<length xs]))"
    by (simp add: map_nth)
  also have "\<dots> = map (\<lambda>j. xs ! j) (take (b - a) (drop a [0..<length xs]))"
    by (simp only: drop_map take_map)
  also have "take (b - a) (drop a [0..<length xs]) = [a..<b]"
    using True assms by simp
  finally show ?thesis .
next
  case False
  then show ?thesis by simp
qed

lemma sort_perm_set:
  assumes "sort p = [0..<n]"
  shows "set p = {0..<n} \<and> length p = n \<and> distinct p"
proof -
  have "set p = set (sort p)" by simp
  moreover have "length p = length (sort p)" by simp
  moreover have "distinct p = distinct (sort p)" by simp
  ultimately show ?thesis unfolding assms by simp
qed

lemma take_rows_perm:
  "sort p = [0..<n] \<Longrightarrow> n \<le> length xs \<Longrightarrow> take_rows xs p = Inr (map (\<lambda>i. xs ! i) p)"
  using sort_perm_set[of p n] by (auto simp: take_rows_def list_all_iff)


lemma shuffle_ok:
  assumes "permutation_ok np" "provider_ok self" "shuffle_order self"
  shows "\<exists>self'. DataProvider_shuffle np self = Inr self' \<and> provider_ok self' \<and>
           curr_batch self' = curr_batch self \<and> num_batches self' = num_batches self \<and>
           batch_size self' = batch_size self \<and>
           length (inputs self') = length (inputs self)"
proof -
  obtain perm g where pg: "permutation np (rng self) (length (inputs self)) = (perm, g)"
    by (cases "permutation np (rng self) (length (inputs self))")
  have sp: "sort perm = [0..<length (inputs self)]"
    using assms(1) pg unfolding permutation_ok_def by (metis fst_conv)
  have len: "length perm = length (inputs self)"
    using sort_perm_set[OF sp] by simp
  show ?thesis
    using assms(2,3) len
    by (simp add: DataProvider_shuffle_def pg take_rows_perm[OF sp] provider_ok_def)
qed

lemma new_epoch_ok:
  assumes "permutation_ok np" "provider_ok self"
  shows "\<exists>self'. new_epoch (DataProvider_shuffle np) self = Inr self' \<and> provider_ok self' \<and>
           curr_batch self' = 0 \<and> num_batches self' = num_batches self \<and>
           batch_size self' = batch_size self \<and>
           length (inputs self') = length (inputs self)"
proof -
  have ok0: "provider_ok (self\<lparr>curr_batch := 0\<rparr>)"
    using assms(2) by (auto simp: provider_ok_def)
  show ?thesis
  proof (cases "shuffle_order self")
    case True
    then show ?thesis
      using shuffle_ok[OF assms(1) ok0] by (auto simp: new_epoch_def)
  next
    case False
    then show ?thesis
      using ok0 by (simp add: new_epoch_def)
  qed
qed

lemma batches_until_stop_slices:
  fixes self :: "('x, 'y, 'r, 'm) DataProvider_scheme"
  assumes "provider_ok self"
  shows "batches_until_stop np f self =
           map (\<lambda>i. (map (\<lambda>j. inputs self ! j) [i * nat (batch_size self)..<(i + 1) * nat (batch_size self)],
                      take (nat (batch_size self)) (drop (i * nat (batch_size self)) (targets self))))
             [nat (curr_batch self)..<min (nat (curr_batch self) + f) (nat (num_batches self))]"
  using assms
proof (induction f arbitrary: self)
  case 0
  then show ?case by simp
next
  case (Suc f)
  define c where "c = nat (curr_batch self)"
  define b where "b = nat (batch_size self)"
  define nb where "nb = nat (num_batches self)"
  have ints: "curr_batch self = int c" "batch_size self = int b" "num_batches self = int nb"
    and b1: "1 \<le> b" and cnb: "c \<le> nb" and cover: "nb * b \<le> length (inputs self)"
  proof -
    from Suc.prems have p: "1 \<le> batch_size self" "0 \<le> curr_batch self"
      "curr_batch self \<le> num_batches self"
      "num_batches self * batch_size self \<le> int (length (inputs self))"
      unfolding provider_ok_def by simp_all
    show "curr_batch self = int c" "batch_size self = int b" "num_batches self = int nb"
      using p unfolding c_def b_def nb_def by simp_all
    show "1 \<le> b" using p unfolding b_def by simp
    show "c \<le> nb" using p unfolding c_def nb_def by simp
    have "int (nb * b) = num_batches self * batch_size self"
      using p unfolding b_def nb_def by simp
    then show "nb * b \<le> length (inputs self)"
      using p(4) by linarith
  qed
  show ?case
  proof (cases "curr_batch self + 1 > num_batches self")
    case True
    then have "c = nb" using ints cnb by simp
    moreover have "batches_until_stop np (Suc f) self = []"
      using True by (simp add: DataProvider_next_def split: sum.splits)
    ultimately show ?thesis
      unfolding c_def nb_def by simp
  next
    case False
    then have lt: "c < nb" using ints by simp
    define self' where "self' = self\<lparr>curr_batch := curr_batch self + 1\<rparr>"
    have ok': "provider_ok self'"
      using Suc.prems False by (simp add: provider_ok_def self'_def)
    have sl: "batch_slice self = (int (c * b), int ((c + 1) * b))"
      by (simp add: batch_slice_def ints algebra_simps)
    have "(c + 1) * b \<le> nb * b"
      using lt mult_le_mono1[of "Suc c" nb b] by simp
    then have bound: "(c + 1) * b \<le> length (inputs self)"
      using cover by simp
    have inp: "py_slice (batch_slice self) (inputs self) = map (\<lambda>j. inputs self ! j) [c * b..<(c + 1) * b]"
      unfolding sl py_slice_nat using take_drop_nth[OF bound, of "c * b"] by simp
    have tar: "py_slice (batch_slice self) (targets self) = take b (drop (c * b) (targets self))"
      unfolding sl py_slice_nat by simp
    have step: "batches_until_stop np (Suc f) self =
        (map (\<lambda>j. inputs self ! j) [c * b..<(c + 1) * b], take b (drop (c * b) (targets self)))
          # batches_until_stop np f self'"
      using False by (simp add: DataProvider_next_def Let_def inp tar self'_def)
    have rng: "[c..<min (c + Suc f) nb] = c # [Suc c..<min (Suc c + f) nb]"
      using lt by (simp add: upt_conv_Cons)
    have c': "nat (curr_batch self') = Suc c"
      by (simp add: self'_def ints)
    have same: "batch_size self' = batch_size self" "num_batches self' = num_batches self"
      "inputs self' = inputs self" "targets self' = targets self"
      by (simp_all add: self'_def)
    show ?thesis
      unfolding step Suc.IH[OF ok'] c' same
      unfolding c_def[symmetric] b_def[symmetric] nb_def[symmetric] rng
      by simp
  qed
qed


lemma reversing_generator_ok: "permutation_ok reversing_generator"
proof -
  have "sort (rev [0..<n]) = [0..<n]" for n :: nat
  proof -
    have "sort (rev [0..<n]) = sorted_list_of_set (set (rev [0..<n]))"
      by (simp add: sorted_list_of_set_sort_remdups distinct_remdups_id del: set_rev set_upt)
    then show ?thesis by simp
  qed
  then show ?thesis
    by (simp add: permutation_ok_def reversing_generator_def)
qed

lemma init_ok:
  fixes xs :: "'x list" and ys :: "'y list"
  assumes "1 \<le> bs" and "mnb = - 1 \<or> 0 < mnb" and "permutation_ok np"
    and "shuf \<longrightarrow> length xs \<le> length ys"
  shows "\<exists>self. DataProvider_init np (DataProvider_shuffle np) ext xs ys bs mnb shuf g = Inr self \<and>
           provider_ok self \<and> curr_batch self = 0 \<and> batch_size self = bs \<and>
           length (inputs self) = length xs \<and>
           num_batches self =
             (if mnb = - 1 then int (length xs) div bs else min mnb (int (length xs) div bs))"
proof -
  define g' where "g' = (case g of None \<Rightarrow> RandomState np DEFAULT_SEED | Some r \<Rightarrow> r)"
  define s0 where "s0 = update_num_batches
     \<lparr>inputs = xs, targets = ys, batch_size = bs, max_num_batches = mnb,
      num_batches = 0, shuffle_order = shuf, current_order = [0..<length xs],
      rng = g', curr_batch = 0, \<dots> = ext\<rparr>"
  have fields: "inputs s0 = xs" "targets s0 = ys" "batch_size s0 = bs" "shuffle_order s0 = shuf"
    "current_order s0 = [0..<length xs]" "curr_batch s0 = 0"
    "num_batches s0 = (if mnb = - 1 then int (length xs) div bs else min mnb (int (length xs) div bs))"
    by (simp_all add: s0_def update_num_batches_def Let_def)
  have d0: "0 \<le> int (length xs) div bs"
    using assms(1) by (simp add: pos_imp_zdiv_nonneg_iff)
  have d1: "int (length xs) div bs * bs \<le> int (length xs)"
    using assms(1) by (metis div_mult_mod_eq le_add_same_cancel1 pos_mod_sign zero_less_one_class.zero_less_one order_less_le_trans)
  have nb0: "0 \<le> num_batches s0"
    using d0 assms(2) by (auto simp: fields)
  have "num_batches s0 \<le> int (length xs) div bs"
    by (simp add: fields)
  then have "num_batches s0 * bs \<le> int (length xs) div bs * bs"
    using assms(1) by (simp add: mult_right_mono)
  then have nb1: "num_batches s0 * bs \<le> int (length xs)"
    using d1 by linarith
  have ok: "provider_ok s0"
    unfolding provider_ok_def using assms(1,4) nb0 nb1 by (simp add: fields)
  have init: "DataProvider_init np (DataProvider_shuffle np) ext xs ys bs mnb shuf g
                = new_epoch (DataProvider_shuffle np) s0"
    using assms(1,2) by (auto simp: DataProvider_init_def s0_def g'_def)
  show ?thesis
    unfolding init using new_epoch_ok[OF assms(3) ok] by (auto simp: fields)
qed


lemma slices_disjoint:
  fixes b :: nat
  assumes "i \<noteq> j"
  shows "set [i * b..<(i + 1) * b] \<inter> set [j * b..<(j + 1) * b] = {}"
proof -
  have "(i + 1) * b \<le> j * b \<or> (j + 1) * b \<le> i * b"
  proof (cases "i < j")
    case True
    then have "(i + 1) * b \<le> j * b" using mult_le_mono1[of "Suc i" j b] by simp
    then show ?thesis by simp
  next
    case False
    then have "j < i" using assms by simp
    then have "(j + 1) * b \<le> i * b" using mult_le_mono1[of "Suc j" i b] by simp
    then show ?thesis by simp
  qed
  then show ?thesis by auto
qed

lemma slices_cover:
  fixes b :: nat
  shows "(\<Union>i<nb. set [i * b..<(i + 1) * b]) = {0..<nb * b}"
proof (induction nb)
  case 0
  then show ?case by simp
next
  case (Suc nb)
  have "(\<Union>i<Suc nb. set [i * b..<(i + 1) * b]) = {0..<nb * b} \<union> {nb * b..<(nb + 1) * b}"
    using Suc.IH by (simp add: lessThan_Suc Un_commute)
  also have "\<dots> = {0..<Suc nb * b}"
    by auto
  finally show ?case .
qed

text \<open>
  Claim C2. For every dataset and every valid \<open>batch_size\<close> and \<open>max_num_batches\<close> the
  constructor succeeds, and \<open>num_batches\<close> is \<open>rows div batch_size\<close> when
  \<open>max_num_batches\<close> is \<open>-1\<close> and the minimum of the two otherwise. Calling \<open>next\<close> until
  it stops yields exactly \<open>num_batches\<close> batches; batch \<open>i\<close> holds the rows at the
  positions \<open>i * batch_size, ..., (i + 1) * batch_size - 1\<close> of the provider's order. These
  index ranges are pairwise disjoint and their union is \<open>0, ..., num_batches * batch_size - 1\<close>,
  so the rows behind them are in no batch of the epoch.
\<close>

theorem C2_num_batches_and_epoch_cover:
  fixes xs :: "'x list" and ys :: "'y list"
  assumes "1 \<le> bs" and "mnb = - 1 \<or> 0 < mnb" and "permutation_ok np"
    and "shuf \<longrightarrow> length xs \<le> length ys"
  shows "\<exists>self. DataProvider_init np (DataProvider_shuffle np) ext xs ys bs mnb shuf g = Inr self \<and>
           num_batches self =
             (if mnb = - 1 then int (length xs) div bs else min mnb (int (length xs) div bs)) \<and>
           length (inputs self) = length xs \<and>
           (let nb = nat (num_batches self); b = nat bs in
              nb * b \<le> length xs \<and>
              batches_until_stop np (Suc nb) self =
                map (\<lambda>i. (map (\<lambda>j. inputs self ! j) [i * b..<(i + 1) * b],
                           take b (drop (i * b) (targets self)))) [0..<nb] \<and>
              (\<forall>i<nb. \<forall>j<nb. i \<noteq> j \<longrightarrow>
                 set [i * b..<(i + 1) * b] \<inter> set [j * b..<(j + 1) * b] = {}) \<and>
              (\<Union>i<nb. set [i * b..<(i + 1) * b]) = {0..<nb * b})"
proof -
  obtain self where init: "DataProvider_init np (DataProvider_shuffle np) ext xs ys bs mnb shuf g = Inr self"
    and ok: "provider_ok self" and c0: "curr_batch self = 0" and b: "batch_size self = bs"
    and len: "length (inputs self) = length xs"
    and nb: "num_batches self =
             (if mnb = - 1 then int (length xs) div bs else min mnb (int (length xs) div bs))"
    using init_ok[OF assms, of ext g] by blast
  have nn: "0 \<le> num_batches self" and cov: "num_batches self * bs \<le> int (length xs)"
    using ok c0 b len unfolding provider_ok_def by simp_all
  have "int (nat (num_batches self) * nat bs) = num_batches self * bs"
    using nn assms(1) by simp
  then have cover: "nat (num_batches self) * nat bs \<le> length xs"
    using cov by linarith
  have run: "batches_until_stop np (Suc (nat (num_batches self))) self =
      map (\<lambda>i. (map (\<lambda>j. inputs self ! j) [i * nat bs..<(i + 1) * nat bs],
                 take (nat bs) (drop (i * nat bs) (targets self)))) [0..<nat (num_batches self)]"
    using batches_until_stop_slices[OF ok, of np "Suc (nat (num_batches self))"]
    by (simp add: c0 b)
  have dis: "\<forall>i<nat (num_batches self). \<forall>j<nat (num_batches self). i \<noteq> j \<longrightarrow>
                 set [i * nat bs..<(i + 1) * nat bs] \<inter> set [j * nat bs..<(j + 1) * nat bs] = {}"
    using slices_disjoint by blast
  show ?thesis
    unfolding Let_def
    using init nb len cover run dis slices_cover[of "nat bs" "nat (num_batches self)"]
    by blast
qed

theorem C2_witness:
  "permutation_ok reversing_generator \<and>
   DataProvider_init reversing_generator (DataProvider_shuffle reversing_generator) ()
       [10, 11, 12, 13, 14 :: int] [''a'', ''b'', ''c'', ''d'', ''e''] 2 (- 1) True None
     = Inr \<lparr>inputs = [14, 13, 12, 11, 10], targets = [''e'', ''d'', ''c'', ''b'', ''a''],
            batch_size = 2, max_num_batches = - 1, num_batches = 2, shuffle_order = True,
            current_order = [4, 3, 2, 1, 0], rng = (), curr_batch = 0\<rparr> \<and>
   batches_until_stop reversing_generator 3
       \<lparr>inputs = [14, 13, 12, 11, 10 :: int], targets = [''e'', ''d'', ''c'', ''b'', ''a''],
        batch_size = 2, max_num_batches = - 1, num_batches = 2, shuffle_order = True,
        current_order = [4, 3, 2, 1, 0], rng = (), curr_batch = 0\<rparr>
     = [([14, 13], [''e'', ''d'']), ([12, 11], [''c'', ''b''])] \<and>
   (\<exists>self. DataProvider_init reversing_generator (DataProvider_shuffle reversing_generator) ()
       [10, 11, 12, 13, 14 :: int] [''a'', ''b'', ''c'', ''d'', ''e''] 2 (- 1) True None = Inr self \<and>
     num_batches self = 2)"
proof -
  let ?np = reversing_generator
  let ?xs = "[10, 11, 12, 13, 14 :: int]"
  let ?ys = "[''a'', ''b'', ''c'', ''d'', ''e'']"
  have init: "DataProvider_init ?np (DataProvider_shuffle ?np) () ?xs ?ys 2 (- 1) True None
      = Inr \<lparr>inputs = [14, 13, 12, 11, 10], targets = [''e'', ''d'', ''c'', ''b'', ''a''],
             batch_size = 2, max_num_batches = - 1, num_batches = 2, shuffle_order = True,
             current_order = [4, 3, 2, 1, 0], rng = (), curr_batch = 0\<rparr>"
    by (simp add: DataProvider_init_def new_epoch_def update_num_batches_def
          DataProvider_shuffle_def take_rows_def reversing_generator_def Let_def eval_nat_numeral)
  have run: "batches_until_stop ?np 3
       \<lparr>inputs = [14, 13, 12, 11, 10 :: int], targets = [''e'', ''d'', ''c'', ''b'', ''a''],
        batch_size = 2, max_num_batches = - 1, num_batches = 2, shuffle_order = True,
        current_order = [4, 3, 2, 1, 0], rng = (), curr_batch = 0\<rparr>
     = [([14, 13], [''e'', ''d'']), ([12, 11], [''c'', ''b''])]"
    by (simp add: DataProvider_next_def batch_slice_def py_slice_def clamp_index_def
          new_epoch_def DataProvider_shuffle_def take_rows_def reversing_generator_def
          Let_def eval_nat_numeral)
  have hyps: "(1 :: int) \<le> 2" "(- 1 :: int) = - 1 \<or> (0 :: int) < - 1"
    "True \<longrightarrow> length ?xs \<le> length ?ys"
    by simp_all
  have "\<exists>self. DataProvider_init ?np (DataProvider_shuffle ?np) () ?xs ?ys 2 (- 1) True None = Inr self \<and>
           num_batches self =
             (if (- 1 :: int) = - 1 then int (length ?xs) div 2 else min (- 1) (int (length ?xs) div 2))"
    using C2_num_batches_and_epoch_cover[OF hyps(1) hyps(2) reversing_generator_ok hyps(3), of "()" None]
    by blast
  then have "\<exists>self. DataProvider_init ?np (DataProvider_shuffle ?np) () ?xs ?ys 2 (- 1) True None = Inr self \<and>
     num_batches self = 2"
    by simp
  then show ?thesis
    using init run reversing_generator_ok by blast
qed

text \<open>
  Claim C4, amended. In a provider with at least one batch per epoch, once \<open>num_batches\<close>
  batches have been emitted the next call of \<open>next\<close> raises \<open>StopIteration\<close> and leaves a
  provider that satisfies the invariant with its cursor at \<open>0\<close>; the call after that
  returns the first batch of the new epoch, the first \<open>batch_size\<close> rows of the new order,
  and is therefore not a second \<open>StopIteration\<close>. With \<open>num_batches = 0\<close> every call
  raises \<open>StopIteration\<close>, as the counterexample shows.
\<close>

theorem C4_end_of_epoch_once:
  fixes self :: "('x, 'y, 'r, 'm) DataProvider_scheme"
  assumes "permutation_ok np" and "provider_ok self"
    and "curr_batch self = num_batches self" and "1 \<le> num_batches self"
  shows "\<exists>s1 s2. DataProvider_next np self = StopIteration s1 \<and>
           provider_ok s1 \<and> curr_batch s1 = 0 \<and>
           num_batches s1 = num_batches self \<and> batch_size s1 = batch_size self \<and>
           DataProvider_next np s1 =
             Batch (take (nat (batch_size self)) (inputs s1),
                    take (nat (batch_size self)) (targets s1)) s2 \<and>
           length (take (nat (batch_size self)) (inputs s1)) = nat (batch_size self) \<and>
           curr_batch s2 = 1"
proof -
  obtain s1 where ne: "new_epoch (DataProvider_shuffle np) self = Inr s1"
    and ok1: "provider_ok s1" and c1: "curr_batch s1 = 0"
    and nb1: "num_batches s1 = num_batches self" and bs1: "batch_size s1 = batch_size self"
    using new_epoch_ok[OF assms(1,2)] by blast
  have stop: "DataProvider_next np self = StopIteration s1"
    using assms(3) by (simp add: DataProvider_next_def ne)
  define b where "b = nat (batch_size self)"
  have bs: "batch_size self = int b"
    using assms(2) by (simp add: b_def provider_ok_def)
  have sl: "batch_slice s1 = (int 0, int b)"
    by (simp add: batch_slice_def c1 bs1 bs)
  have inp: "py_slice (batch_slice s1) (inputs s1) = take b (inputs s1)"
    and tar: "py_slice (batch_slice s1) (targets s1) = take b (targets s1)"
    unfolding sl py_slice_nat by simp_all
  have more: "\<not> curr_batch s1 + 1 > num_batches s1"
    using assms(4) by (simp add: c1 nb1)
  have nxt: "DataProvider_next np s1 =
      Batch (take (nat (batch_size self)) (inputs s1), take (nat (batch_size self)) (targets s1))
        (s1\<lparr>curr_batch := 1\<rparr>)"
    unfolding DataProvider_next_def Let_def inp tar b_def[symmetric]
    using more by (simp add: c1)
  have "1 * batch_size self \<le> num_batches self * batch_size self"
    using assms(2,4) by (intro mult_right_mono) (simp_all add: provider_ok_def)
  moreover have "num_batches self * batch_size self \<le> int (length (inputs s1))"
    using ok1 by (simp add: provider_ok_def nb1 bs1)
  ultimately have "batch_size self \<le> int (length (inputs s1))"
    by linarith
  then have full: "length (take (nat (batch_size self)) (inputs s1)) = nat (batch_size self)"
    by simp
  show ?thesis
    using stop ok1 c1 nb1 bs1 nxt full by simp
qed

theorem C4_counterexample:
  "DataProvider_init reversing_generator (DataProvider_shuffle reversing_generator) ()
       [10 :: int] [''a''] 2 (- 1) False None
     = Inr \<lparr>inputs = [10], targets = [''a''], batch_size = 2, max_num_batches = - 1,
            num_batches = 0, shuffle_order = False, current_order = [0], rng = (),
            curr_batch = 0\<rparr> \<and>
   DataProvider_next reversing_generator
       \<lparr>inputs = [10 :: int], targets = [''a''], batch_size = 2, max_num_batches = - 1,
        num_batches = 0, shuffle_order = False, current_order = [0], rng = (),
        curr_batch = 0\<rparr>
     = StopIteration
       \<lparr>inputs = [10], targets = [''a''], batch_size = 2, max_num_batches = - 1,
        num_batches = 0, shuffle_order = False, current_order = [0], rng = (),
        curr_batch = 0\<rparr>"
  by (simp add: DataProvider_init_def DataProvider_next_def new_epoch_def
        update_num_batches_def reversing_generator_def Let_def)

theorem C4_witness:
  "permutation_ok reversing_generator \<and>
   provider_ok \<lparr>inputs = [10, 11, 12 :: int], targets = [''a'', ''b'', ''c''], batch_size = 1,
        max_num_batches = 2, num_batches = 2, shuffle_order = True,
        current_order = [0, 1, 2], rng = (), curr_batch = 2\<rparr> \<and>
   (\<exists>s2. DataProvider_next reversing_generator
       \<lparr>inputs = [10, 11, 12 :: int], targets = [''a'', ''b'', ''c''], batch_size = 1,
        max_num_batches = 2, num_batches = 2, shuffle_order = True,
        current_order = [0, 1, 2], rng = (), curr_batch = 2\<rparr>
     = StopIteration
       \<lparr>inputs = [12, 11, 10], targets = [''c'', ''b'', ''a''], batch_size = 1,
        max_num_batches = 2, num_batches = 2, shuffle_order = True,
        current_order = [2, 1, 0], rng = (), curr_batch = 0\<rparr> \<and>
     DataProvider_next reversing_generator
       \<lparr>inputs = [12, 11, 10 :: int], targets = [''c'', ''b'', ''a''], batch_size = 1,
        max_num_batches = 2, num_batches = 2, shuffle_order = True,
        current_order = [2, 1, 0], rng = (), curr_batch = 0\<rparr>
     = Batch ([12], [''c'']) s2 \<and> curr_batch s2 = 1)"
proof -
  let ?self = "\<lparr>inputs = [10, 11, 12 :: int], targets = [''a'', ''b'', ''c''], batch_size = 1,
        max_num_batches = 2, num_batches = 2, shuffle_order = True,
        current_order = [0, 1, 2], rng = (), curr_batch = 2\<rparr>"
  let ?s1 = "\<lparr>inputs = [12, 11, 10 :: int], targets = [''c'', ''b'', ''a''], batch_size = 1,
        max_num_batches = 2, num_batches = 2, shuffle_order = True,
        current_order = [2, 1, 0 :: nat], rng = (), curr_batch = 0\<rparr>"
  have ok: "provider_ok ?self"
    by (simp add: provider_ok_def)
  have stop: "DataProvider_next reversing_generator ?self = StopIteration ?s1"
    by (simp add: DataProvider_next_def new_epoch_def DataProvider_shuffle_def take_rows_def
          reversing_generator_def eval_nat_numeral)
  obtain s1 s2 where a: "DataProvider_next reversing_generator ?self = StopIteration s1"
    and b: "DataProvider_next reversing_generator s1 =
             Batch (take (nat (batch_size ?self)) (inputs s1),
                    take (nat (batch_size ?self)) (targets s1)) s2"
    and c: "curr_batch s2 = 1"
    using C4_end_of_epoch_once[OF reversing_generator_ok ok] by auto
  from a stop have s1: "s1 = ?s1" by simp
  have "DataProvider_next reversing_generator ?s1 = Batch ([12], [''c'']) s2"
    using b unfolding s1 by simp
  then show ?thesis
    using reversing_generator_ok ok stop c by blast
qed

section \<open>Properties of the ASSISTments data provider\<close>

lemma argsort_length: "length (argsort p) = length p"
  by (simp add: argsort_def)

lemma argsort_inverse:
  assumes "sort p = [0..<n]" and "k < n"
  shows "argsort p ! k < n \<and> p ! (argsort p ! k) = k"
proof -
  have len: "length p = n" using sort_perm_set[OF assms(1)] by simp
  define zs where "zs = sort_key fst (zip p [0..<length p])"
  have mf: "map fst (zip p [0..<length p]) = p"
    by simp
  have "mset (map fst zs) = mset (map fst (zip p [0..<length p]))"
    unfolding zs_def mset_map by simp
  then have "mset (map fst zs) = mset p"
    unfolding mf .
  moreover have "sorted (map fst zs)"
    by (simp add: zs_def)
  ultimately have "sort p = map fst zs"
    by (rule properties_for_sort)
  then have fst: "map fst zs = [0..<n]"
    using assms(1) by simp
  have lz: "length zs = n"
    using fst by (metis length_map length_upt diff_zero)
  have "zs ! k \<in> set zs"
    using lz assms(2) by simp
  then have "zs ! k \<in> set (zip p [0..<length p])"
    by (simp add: zs_def)
  then obtain j where j: "j < n" "zs ! k = (p ! j, j)"
    unfolding in_set_zip len by (auto simp: len)
  have "fst (zs ! k) = [0..<n] ! k"
    using fst lz assms(2) by (metis nth_map)
  then have "p ! j = k"
    using j assms(2) by simp
  moreover have "argsort p ! k = j"
    using j lz assms(2) by (simp add: argsort_def zs_def[symmetric])
  ultimately show ?thesis using j by simp
qed

lemma take_rows_argsort:
  assumes "sort p = [0..<n]" and "length xs = n"
  shows "take_rows xs (argsort p) = Inr (map (\<lambda>i. xs ! i) (argsort p))"
proof -
  have len: "length p = n" using sort_perm_set[OF assms(1)] by simp
  have "\<forall>i\<in>set (argsort p). i < n"
    using argsort_inverse[OF assms(1)] argsort_length[of p] len
    by (metis in_set_conv_nth)
  then show ?thesis
    by (simp add: take_rows_def list_all_iff assms(2))
qed

lemma unshuffle:
  assumes "sort p = [0..<n]" and "length orig = n"
  shows "map (\<lambda>i. map (\<lambda>j. orig ! j) p ! i) (argsort p) = orig"
proof (rule nth_equalityI)
  have len: "length p = n" using sort_perm_set[OF assms(1)] by simp
  show "length (map (\<lambda>i. map (\<lambda>j. orig ! j) p ! i) (argsort p)) = length orig"
    by (simp add: argsort_length len assms(2))
  fix k assume "k < length (map (\<lambda>i. map (\<lambda>j. orig ! j) p ! i) (argsort p))"
  then have k: "k < n" by (simp add: argsort_length len)
  have a: "argsort p ! k < n" "p ! (argsort p ! k) = k"
    using argsort_inverse[OF assms(1) k] by simp_all
  show "map (\<lambda>i. map (\<lambda>j. orig ! j) p ! i) (argsort p) ! k = orig ! k"
    using k a by (simp add: argsort_length len)
qed

lemma map_nth_upt: "map (\<lambda>j. [0..<n] ! j) p = p" if "\<forall>i\<in>set p. i < n"
  using that by (induction p) simp_all


text \<open>
  Claim C3, amended. In a provider that does not shuffle at the start of an epoch and
  whose rows are in their original order (the order array is \<open>0, ..., n-1\<close>), with one
  target list and one target-id row per input row, \<open>shuffle()\<close> followed by \<open>reset()\<close>
  succeeds and gives back the inputs, the targets, the target ids and the order array of
  the state before the shuffle. \<open>reset\<close> restores the original order, not the order before
  the last shuffle, and then starts a new epoch, which shuffles again when
  \<open>shuffle_order\<close> is set: the counterexample shows both.
\<close>

theorem C3_shuffle_then_reset:
  fixes self :: "('a, 't, 'r, 'm) ASSISTDataProvider_scheme"
  assumes "permutation_ok np" and "\<not> shuffle_order self"
    and "current_order self = [0..<length (inputs self)]"
    and "length (targets self) = length (inputs self)"
    and "length (target_ids self) = length (inputs self)"
  shows "\<exists>s1 s2. ASSIST_shuffle np self = Inr s1 \<and> ASSIST_reset np s1 = Inr s2 \<and>
           inputs s2 = inputs self \<and> targets s2 = targets self \<and>
           target_ids s2 = target_ids self \<and> current_order s2 = current_order self"
proof -
  define n where "n = length (inputs self)"
  obtain perm g where pg: "permutation np (rng self) (length (inputs self)) = (perm, g)"
    by (cases "permutation np (rng self) (length (inputs self))")
  have sp: "sort perm = [0..<n]"
    using assms(1) pg unfolding permutation_ok_def n_def by (metis fst_conv)
  have pset: "\<forall>i\<in>set perm. i < n" and plen: "length perm = n"
    using sort_perm_set[OF sp] by simp_all
  define s1 where "s1 = self\<lparr>rng := g, current_order := perm,
      inputs := map (\<lambda>i. inputs self ! i) perm, targets := map (\<lambda>i. targets self ! i) perm,
      target_ids := map (\<lambda>i. target_ids self ! i) perm\<rparr>"
  have order: "map (\<lambda>i. current_order self ! i) perm = perm"
    unfolding assms(3) n_def[symmetric] by (rule map_nth_upt[OF pset])
  have shuf: "ASSIST_shuffle np self = Inr s1"
    using assms(3,4,5) order
    by (simp add: ASSIST_shuffle_def pg take_rows_perm[OF sp] n_def s1_def)
  have f1: "current_order s1 = perm" "inputs s1 = map (\<lambda>i. inputs self ! i) perm"
    "targets s1 = map (\<lambda>i. targets self ! i) perm"
    "target_ids s1 = map (\<lambda>i. target_ids self ! i) perm" "\<not> shuffle_order s1"
    using assms(2) by (simp_all add: s1_def)
  have unperm: "map (\<lambda>i. perm ! i) (argsort perm) = [0..<n]"
    using unshuffle[OF sp, of "[0..<n]"] map_nth_upt[OF pset] by simp
  define s2 where "s2 = s1\<lparr>current_order := [0..<n], inputs := inputs self,
      targets := targets self, target_ids := target_ids self, curr_batch := 0\<rparr>"
  have reset: "ASSIST_reset np s1 = Inr s2"
    unfolding ASSIST_reset_def Let_def f1
    using f1(5) assms(4,5)
    by (simp add: take_rows_argsort[OF sp] plen unperm unshuffle[OF sp] n_def new_epoch_def s2_def)
  show ?thesis
    using shuf reset assms(3) by (auto simp: s2_def n_def)
qed

lemmas ex_eval = example_provider_def reversing_generator_def ASSIST_shuffle_def ASSIST_reset_def
  ASSIST_next_def transform_batch_def reshape3_def split_into_def take_rows_def argsort_def
  new_epoch_def batch_slice_def py_slice_def clamp_index_def Let_def eval_nat_numeral

theorem C3_counterexample:
  "ASSIST_shuffle reversing_generator (example_provider\<lparr>shuffle_order := True\<rparr>)
     = Inr (example_provider\<lparr>shuffle_order := True, current_order := [2, 1, 0],
             inputs := [[0, 0], [1, 1], [1, 0]], targets := [[], [True, False], [True]],
             target_ids := [[0, 0], [1, 1], [1, 0]]\<rparr>) \<and>
   ASSIST_reset reversing_generator
       (example_provider\<lparr>shuffle_order := True, current_order := [2, 1, 0],
             inputs := [[0, 0], [1, 1], [1, 0]], targets := [[], [True, False], [True]],
             target_ids := [[0, 0], [1, 1], [1, 0]]\<rparr>)
     = Inr (example_provider\<lparr>shuffle_order := True, current_order := [2, 1, 0],
             inputs := [[0, 0], [1, 1], [1, 0]], targets := [[], [True, False], [True]],
             target_ids := [[0, 0], [1, 1], [1, 0]]\<rparr>) \<and>
   inputs (example_provider\<lparr>shuffle_order := True\<rparr>) = [[1, 0], [1, 1], [0, 0]] \<and>
   ASSIST_shuffle reversing_generator
       (example_provider\<lparr>current_order := [2, 1, 0],
             inputs := [[0, 0], [1, 1], [1, 0]], targets := [[], [True, False], [True]],
             target_ids := [[0, 0], [1, 1], [1, 0]]\<rparr>)
     = Inr example_provider \<and>
   ASSIST_reset reversing_generator example_provider = Inr example_provider \<and>
   inputs example_provider = [[1, 0], [1, 1], [0, 0]]"
  by (simp add: ex_eval)

theorem C3_witness:
  "permutation_ok reversing_generator \<and> \<not> shuffle_order example_provider \<and>
   current_order example_provider = [0..<length (inputs example_provider)] \<and>
   length (targets example_provider) = length (inputs example_provider) \<and>
   length (target_ids example_provider) = length (inputs example_provider) \<and>
   ASSIST_shuffle reversing_generator example_provider
     = Inr (example_provider\<lparr>current_order := [2, 1, 0],
             inputs := [[0, 0], [1, 1], [1, 0]], targets := [[], [True, False], [True]],
             target_ids := [[0, 0], [1, 1], [1, 0]]\<rparr>) \<and>
   (\<exists>s2. ASSIST_reset reversing_generator
       (example_provider\<lparr>current_order := [2, 1, 0],
             inputs := [[0, 0], [1, 1], [1, 0]], targets := [[], [True, False], [True]],
             target_ids := [[0, 0], [1, 1], [1, 0]]\<rparr>) = Inr s2 \<and>
      inputs s2 = [[1, 0], [1, 1], [0, 0]] \<and> targets s2 = [[True], [True, False], []] \<and>
      target_ids s2 = [[1, 0], [1, 1], [0, 0]])"
proof -
  have h: "\<not> shuffle_order example_provider"
    "current_order example_provider = [0..<length (inputs example_provider)]"
    "length (targets example_provider) = length (inputs example_provider)"
    "length (target_ids example_provider) = length (inputs example_provider)"
    by (simp_all add: example_provider_def eval_nat_numeral)
  have shuf: "ASSIST_shuffle reversing_generator example_provider
     = Inr (example_provider\<lparr>current_order := [2, 1, 0],
             inputs := [[0, 0], [1, 1], [1, 0]], targets := [[], [True, False], [True]],
             target_ids := [[0, 0], [1, 1], [1, 0]]\<rparr>)"
    by (simp add: ex_eval)
  obtain s1 s2 where a: "ASSIST_shuffle reversing_generator example_provider = Inr s1"
    and b: "ASSIST_reset reversing_generator s1 = Inr s2"
    and c: "inputs s2 = inputs example_provider" "targets s2 = targets example_provider"
      "target_ids s2 = target_ids example_provider"
    using C3_shuffle_then_reset[OF reversing_generator_ok h] by blast
  from a shuf have s1: "s1 = example_provider\<lparr>current_order := [2, 1, 0],
             inputs := [[0, 0], [1, 1], [1, 0]], targets := [[], [True, False], [True]],
             target_ids := [[0, 0], [1, 1], [1, 0]]\<rparr>"
    by simp
  have d: "inputs s2 = [[1, 0], [1, 1], [0, 0]]" "targets s2 = [[True], [True, False], []]"
      "target_ids s2 = [[1, 0], [1, 1], [0, 0]]"
    using c by (simp_all add: example_provider_def)
  show ?thesis
    using reversing_generator_ok h shuf b[unfolded s1] d by blast
qed

lemma sum_list_lengths:
  "\<forall>row\<in>set rows. length row = w \<Longrightarrow> sum_list (map length rows) = length rows * w"
  by (induction rows) simp_all

text \<open>
  Claim C1, amended. For every batch that \<open>next\<close> of the ASSISTments provider emits, the
  flattened targets are the concatenation, student by student, of the target lists of the
  batch, so their length is the sum of the per-student answer counts; the flattened target
  ids are the concatenation of the batch's dense target-id rows, so their length is
  \<open>batch_size\<close> times the width of the target-id matrix, padding positions included. The
  two lengths differ whenever a student of the batch has fewer answers than that width.
\<close>

theorem C1_flattened_lengths:
  fixes self :: "('a, 't, 'r, 'm) ASSISTDataProvider_scheme"
  assumes "ASSIST_next np self = Batch (batch_inputs, batch_targets, batch_target_ids) self'"
    and "provider_ok self"
    and "length (target_ids self) = length (inputs self)"
    and "\<forall>row\<in>set (target_ids self). length row = w"
  shows "batch_targets = concat (py_slice (batch_slice self) (targets self)) \<and>
         length batch_targets = sum_list (map length (py_slice (batch_slice self) (targets self))) \<and>
         batch_target_ids = concat (py_slice (batch_slice self) (target_ids self)) \<and>
         length batch_target_ids = nat (batch_size self) * w"
proof -
  define c where "c = nat (curr_batch self)"
  define b where "b = nat (batch_size self)"
  define nb where "nb = nat (num_batches self)"
  from assms(2) have p: "1 \<le> batch_size self" "0 \<le> curr_batch self"
      "curr_batch self \<le> num_batches self"
      "num_batches self * batch_size self \<le> int (length (inputs self))"
    unfolding provider_ok_def by simp_all
  have ints: "curr_batch self = int c" "batch_size self = int b" "num_batches self = int nb"
    using p unfolding c_def b_def nb_def by simp_all
  have "int (nb * b) = num_batches self * batch_size self"
    using p unfolding b_def nb_def by simp
  then have cover: "nb * b \<le> length (inputs self)"
    using p(4) by linarith
  have more: "\<not> curr_batch self + 1 > num_batches self"
    using assms(1) by (auto simp: ASSIST_next_def split: sum.splits)
  then have lt: "c < nb" using ints by simp
  have tb: "transform_batch (self\<lparr>curr_batch := curr_batch self + 1\<rparr>)
        (py_slice (batch_slice self) (inputs self)) (py_slice (batch_slice self) (target_ids self))
        (py_slice (batch_slice self) (targets self))
      = Inr (batch_inputs, batch_target_ids, batch_targets)"
    using assms(1) more by (auto simp: ASSIST_next_def Let_def split: sum.splits)
  then have t: "batch_targets = concat (py_slice (batch_slice self) (targets self))"
    and i: "batch_target_ids = concat (py_slice (batch_slice self) (target_ids self))"
    by (auto simp: transform_batch_def Let_def split: if_splits sum.splits)
  have sl: "batch_slice self = (int (c * b), int ((c + 1) * b))"
    by (simp add: batch_slice_def ints algebra_simps)
  have "(c + 1) * b \<le> nb * b"
    using lt mult_le_mono1[of "Suc c" nb b] by simp
  then have bound: "(c + 1) * b \<le> length (target_ids self)"
    using cover assms(3) by simp
  have rows: "length (py_slice (batch_slice self) (target_ids self)) = b"
    unfolding sl py_slice_nat using bound by simp
  have "set (py_slice (batch_slice self) (target_ids self)) \<subseteq> set (target_ids self)"
    unfolding sl py_slice_nat by (meson set_take_subset set_drop_subset subset_trans)
  then have "\<forall>row\<in>set (py_slice (batch_slice self) (target_ids self)). length row = w"
    using assms(4) by blast
  then have "length batch_target_ids = b * w"
    unfolding i length_concat using sum_list_lengths rows by metis
  then show ?thesis
    using t i by (simp add: length_concat b_def)
qed

theorem C1_counterexample:
  "ASSIST_next reversing_generator example_provider
     = Batch ([[[1], [0]]], [True], [1, 0]) (example_provider\<lparr>curr_batch := 1\<rparr>) \<and>
   length [True] = 1 \<and> length [1, 0 :: int] = 2"
  by (simp add: ex_eval)

theorem C1_witness:
  "ASSIST_next reversing_generator (example_provider\<lparr>curr_batch := 1\<rparr>)
     = Batch ([[[1], [1]]], [True, False], [1, 1]) (example_provider\<lparr>curr_batch := 2\<rparr>) \<and>
   provider_ok (example_provider\<lparr>curr_batch := 1\<rparr>) \<and>
   length (target_ids (example_provider\<lparr>curr_batch := 1\<rparr>))
     = length (inputs (example_provider\<lparr>curr_batch := 1\<rparr>)) \<and>
   list_all (\<lambda>row. length row = 2) (target_ids (example_provider\<lparr>curr_batch := 1\<rparr>)) \<and>
   length [1, 1 :: int] = nat (batch_size (example_provider\<lparr>curr_batch := 1\<rparr>)) * 2"
proof -
  let ?s = "example_provider\<lparr>curr_batch := 1\<rparr>"
  have n: "ASSIST_next reversing_generator ?s
     = Batch ([[[1], [1]]], [True, False], [1, 1]) (example_provider\<lparr>curr_batch := 2\<rparr>)"
    by (simp add: ex_eval)
  have ok: "provider_ok ?s"
    by (simp add: provider_ok_def example_provider_def)
  have al: "length (target_ids ?s) = length (inputs ?s)"
    by (simp add: example_provider_def)
  have w: "\<forall>row\<in>set (target_ids ?s). length row = 2"
    by (simp add: example_provider_def)
  have "length [1, 1 :: int] = nat (batch_size ?s) * 2"
    using C1_flattened_lengths[OF n ok al w] by blast
  then show ?thesis
    using n ok al w by (simp add: list_all_iff)
qed

subsection \<open>Shuffling and constructing with aligned arrays\<close>

lemma ASSIST_shuffle_eq:
  fixes self :: "('a, 't, 'r, 'm) ASSISTDataProvider_scheme"
  assumes "permutation_ok np"
    and "length (current_order self) = length (inputs self)"
    and "length (targets self) = length (inputs self)"
    and "length (target_ids self) = length (inputs self)"
  shows "\<exists>perm g. sort perm = [0..<length (inputs self)] \<and>
           ASSIST_shuffle np self =
             Inr (self\<lparr>rng := g, current_order := map (\<lambda>i. current_order self ! i) perm,
                       inputs := map (\<lambda>i. inputs self ! i) perm,
                       targets := map (\<lambda>i. targets self ! i) perm,
                       target_ids := map (\<lambda>i. target_ids self ! i) perm\<rparr>)"
proof -
  obtain perm g where pg: "permutation np (rng self) (length (inputs self)) = (perm, g)"
    by (cases "permutation np (rng self) (length (inputs self))")
  have sp: "sort perm = [0..<length (inputs self)]"
    using assms(1) pg unfolding permutation_ok_def by (metis fst_conv)
  have "ASSIST_shuffle np self =
             Inr (self\<lparr>rng := g, current_order := map (\<lambda>i. current_order self ! i) perm,
                       inputs := map (\<lambda>i. inputs self ! i) perm,
                       targets := map (\<lambda>i. targets self ! i) perm,
                       target_ids := map (\<lambda>i. target_ids self ! i) perm\<rparr>)"
    using assms(2,3,4) by (simp add: ASSIST_shuffle_def pg take_rows_perm[OF sp])
  then show ?thesis using sp by blast
qed

lemma map_nth_identity: "map (\<lambda>i. xs ! i) [0..<length xs] = xs"
  by (rule map_nth)

lemma sort_upt: "sort [0..<n] = [0..<n]"
  by (simp add: sorted_sort_id)

lemma ASSIST_init_from_arrays:
  fixes xs :: "'a list list" and ys :: "'t list list"
  assumes "1 \<le> bs" and "mnb = - 1 \<or> 0 < mnb" and "permutation_ok lib"
    and "length ys = length xs" and "length ids = length xs"
  shows "\<exists>self perm.
           DataProvider_init lib (ASSIST_shuffle lib)
             (ASSISTDataProvider.fields wset wyear ddir nc fr pm cs ids mna mpsi ed cm cd)
             xs ys bs mnb shuf g = Inr self \<and>
           sort perm = [0..<length xs] \<and>
           inputs self = map (\<lambda>i. xs ! i) perm \<and>
           targets self = map (\<lambda>i. ys ! i) perm \<and>
           target_ids self = map (\<lambda>i. ids ! i) perm \<and>
           max_num_ans self = mna \<and> max_prob_set_id self = mpsi \<and> encoding_dim self = ed \<and>
           compress_matrix self = cm \<and> compress_dim self = cd \<and> which_set self = wset"
proof -
  define g' where "g' = (case g of None \<Rightarrow> RandomState lib DEFAULT_SEED | Some r \<Rightarrow> r)"
  define s0 where "s0 = (update_num_batches
     \<lparr>inputs = xs, targets = ys, batch_size = bs, max_num_batches = mnb,
      num_batches = 0, shuffle_order = shuf, current_order = [0..<length xs],
      rng = g', curr_batch = 0,
      \<dots> = ASSISTDataProvider.fields wset wyear ddir nc fr pm cs ids mna mpsi ed cm cd\<rparr>)
        \<lparr>curr_batch := 0\<rparr>"
  have fields: "inputs s0 = xs" "targets s0 = ys" "target_ids s0 = ids"
    "current_order s0 = [0..<length xs]" "shuffle_order s0 = shuf"
    "max_num_ans s0 = mna" "max_prob_set_id s0 = mpsi" "encoding_dim s0 = ed"
    "compress_matrix s0 = cm" "compress_dim s0 = cd" "which_set s0 = wset"
    by (simp_all add: s0_def update_num_batches_def Let_def ASSISTDataProvider.defs)
  have init: "DataProvider_init lib (ASSIST_shuffle lib)
             (ASSISTDataProvider.fields wset wyear ddir nc fr pm cs ids mna mpsi ed cm cd)
             xs ys bs mnb shuf g = (if shuf then ASSIST_shuffle lib s0 else Inr s0)"
    using assms(1,2) by (auto simp: DataProvider_init_def new_epoch_def s0_def g'_def Let_def
        update_num_batches_def)
  show ?thesis
  proof (cases shuf)
    case True
    obtain perm r where sp: "sort perm = [0..<length (inputs s0)]"
      and sh: "ASSIST_shuffle lib s0 =
             Inr (s0\<lparr>rng := r, current_order := map (\<lambda>i. current_order s0 ! i) perm,
                       inputs := map (\<lambda>i. inputs s0 ! i) perm,
                       targets := map (\<lambda>i. targets s0 ! i) perm,
                       target_ids := map (\<lambda>i. target_ids s0 ! i) perm\<rparr>)"
      using ASSIST_shuffle_eq[of lib s0] assms(3,4,5) by (auto simp: fields)
    show ?thesis
      unfolding init using True sp sh
      by (intro exI[of _ "s0\<lparr>rng := r, current_order := map (\<lambda>i. current_order s0 ! i) perm,
                       inputs := map (\<lambda>i. inputs s0 ! i) perm,
                       targets := map (\<lambda>i. targets s0 ! i) perm,
                       target_ids := map (\<lambda>i. target_ids s0 ! i) perm\<rparr>"] exI[of _ perm])
         (simp add: fields)
  next
    case False
    have ident: "xs = map (\<lambda>i. xs ! i) [0..<length xs]" "ys = map (\<lambda>i. ys ! i) [0..<length xs]"
      "ids = map (\<lambda>i. ids ! i) [0..<length xs]"
      using assms(4,5) map_nth[of xs] map_nth[of ys] map_nth[of ids] by simp_all
    show ?thesis
      unfolding init using False ident
      by (intro exI[of _ s0] exI[of _ "[0..<length xs]"]) (simp add: fields sort_upt)
  qed
qed

subsection \<open>Truncation\<close>

lemma py_range_pos:
  assumes "0 < t"
  shows "py_range 0 (int n) (int t) = Inr (map (\<lambda>k. int (k * t)) [0..<(n + t - 1) div t])"
proof -
  have e: "int n - 0 + int t - 1 = int (n + t - 1)"
    using assms by (simp add: of_nat_diff)
  have "nat ((int n - 0 + int t - 1) div int t) = nat (int ((n + t - 1) div t))"
    by (simp only: e zdiv_int)
  then have "nat ((int n - 0 + int t - 1) div int t) = (n + t - 1) div t"
    by (simp only: nat_int)
  then show ?thesis
    using assms by (simp add: py_range_def del: of_nat_add of_nat_diff diff_zero)
qed

lemma truncate_student_slices:
  assumes "0 < t"
  shows "truncate_student student (int t) = Inr (consecutive_slices t student)"
proof -
  have "py_slice (int (k * t), int (k * t) + int t) student = take t (drop (k * t) student)" for k
    using py_slice_nat[of "k * t" "k * t + t" student] by simp
  then show ?thesis
    by (simp add: truncate_student_def py_range_pos[OF assms] consecutive_slices_def comp_def)
qed

lemma truncate_targets_loop_slices:
  assumes "0 < t"
  shows "truncate_targets_loop acc targs (int t) = Inr (acc @ concat (map (consecutive_slices t) targs))"
  by (induction targs arbitrary: acc) (simp_all add: truncate_student_slices[OF assms])

lemma concat_slices_take:
  "concat (map (\<lambda>k. take t (drop (k * t) xs)) [0..<n]) = take (n * t) xs"
proof (induction n)
  case 0
  then show ?case by simp
next
  case (Suc n)
  have "take (n * t) xs @ take t (drop (n * t) xs) = take (n * t + t) xs"
    by (simp add: take_add)
  then show ?case
    using Suc by (simp add: add.commute)
qed

lemma slices_cover_length:
  assumes "0 < t"
  shows "length xs \<le> (length xs + t - 1) div t * t"
proof -
  have "length xs + t - 1 < ((length xs + t - 1) div t + 1) * t"
    using assms by (metis Suc_eq_plus1 dividend_less_div_times mult.commute add.commute mult_Suc)
  then show ?thesis by simp
qed

lemma concat_consecutive_slices:
  assumes "0 < t"
  shows "concat (consecutive_slices t xs) = xs"
  unfolding consecutive_slices_def concat_slices_take
  using slices_cover_length[OF assms, of xs] by simp

lemma consecutive_slices_lengths:
  assumes "0 < t" and "k < length (consecutive_slices t xs)"
  shows "0 < length (consecutive_slices t xs ! k) \<and> length (consecutive_slices t xs ! k) \<le> t \<and>
         (Suc k < length (consecutive_slices t xs) \<longrightarrow> length (consecutive_slices t xs ! k) = t)"
proof -
  let ?n = "(length xs + t - 1) div t"
  have k: "k < ?n" using assms(2) by (simp add: consecutive_slices_def)
  have nth: "consecutive_slices t xs ! k = take t (drop (k * t) xs)"
    using k by (simp add: consecutive_slices_def)
  have cap: "?n * t \<le> length xs + t - 1"
    by (rule div_times_less_eq_dividend)
  have "Suc k \<le> ?n" using k by simp
  then have "Suc k * t \<le> ?n * t" by (rule mult_le_mono1)
  then have "Suc k * t \<le> length xs + t - 1"
    using cap by (rule order_trans)
  then have "k * t < length xs"
    using assms(1) unfolding mult_Suc by arith
  then have pos: "0 < length (consecutive_slices t xs ! k)"
    unfolding nth using assms(1) by simp
  have full: "length (consecutive_slices t xs ! k) = t" if "Suc k < length (consecutive_slices t xs)"
  proof -
    have "Suc (Suc k) \<le> ?n" using that by (simp add: consecutive_slices_def)
    then have "Suc (Suc k) * t \<le> ?n * t" by (rule mult_le_mono1)
    then have "Suc (Suc k) * t \<le> length xs + t - 1"
      using cap by (rule order_trans)
    then have "Suc k * t \<le> length xs"
      using assms(1) unfolding mult_Suc by arith
    then show ?thesis unfolding nth by simp
  qed
  show ?thesis
    using pos full unfolding nth by simp
qed

text \<open>
  Claim C7. For every collection of targets and every positive threshold,
  \<open>_truncate_targets\<close> returns, student after student, the consecutive slices of size
  \<open>threshold\<close> of the student's label sequence. The slices of a student concatenate to the
  sequence itself, so nothing is added: every slice is non-empty and at most \<open>threshold\<close>
  long, and every slice but the last of a student is exactly \<open>threshold\<close> long.
\<close>

theorem C7_targets_sliced_without_padding:
  assumes "0 < threshold"
  shows "truncate_targets targs threshold
           = Inr (concat (map (consecutive_slices (nat threshold)) targs)) \<and>
         (\<forall>student\<in>set targs.
            concat (consecutive_slices (nat threshold) student) = student \<and>
            (\<forall>k<length (consecutive_slices (nat threshold) student).
               0 < length (consecutive_slices (nat threshold) student ! k) \<and>
               length (consecutive_slices (nat threshold) student ! k) \<le> nat threshold \<and>
               (Suc k < length (consecutive_slices (nat threshold) student) \<longrightarrow>
                  length (consecutive_slices (nat threshold) student ! k) = nat threshold)))"
proof -
  define t where "t = nat threshold"
  have t: "0 < t" "threshold = int t"
    using assms by (simp_all add: t_def)
  have "truncate_targets targs threshold = Inr (concat (map (consecutive_slices t) targs))"
    unfolding truncate_targets_def t(2) using truncate_targets_loop_slices[OF t(1), of "[]" targs]
    by simp
  then show ?thesis
    unfolding t_def[symmetric]
    using concat_consecutive_slices[OF t(1)] consecutive_slices_lengths[OF t(1)]
    by blast
qed

theorem C7_witness:
  "(0 :: int) < 2 \<and>
   truncate_targets [[True, False, True], [False, False], []] 2
     = Inr [[True, False], [True], [False, False]] \<and>
   consecutive_slices (nat 2) [True, False, True] = [[True, False], [True]]"
proof -
  have c: "consecutive_slices (nat 2) [True, False, True] = [[True, False], [True]]"
    "consecutive_slices (nat 2) [False, False] = [[False, False]]"
    "consecutive_slices (nat 2) ([] :: bool list) = []"
    by code_simp+
  have "truncate_targets [[True, False, True], [False, False], []] 2
     = Inr (concat (map (consecutive_slices (nat 2)) [[True, False, True], [False, False], []]))"
    by (rule C7_targets_sliced_without_padding[THEN conjunct1]) simp
  then show ?thesis
    using c by simp
qed

lemma split_into_append:
  assumes "length r = m * c"
  shows "split_into (m + k) c (r @ ys) = split_into m c r @ split_into k c ys"
proof -
  have left: "take c (drop (i * c) (r @ ys)) = take c (drop (i * c) r)" if "i < m" for i
  proof -
    have "Suc i * c \<le> m * c" using that by (intro mult_le_mono1) simp
    then have "i * c + c \<le> length r" using assms by (simp add: add.commute)
    then show ?thesis by simp
  qed
  have right: "take c (drop ((j + m) * c) (r @ ys)) = take c (drop (j * c) ys)" for j
    using assms by (simp add: add_mult_distrib)
  have "[0..<m + k] = [0..<m] @ [m..<m + k]"
    using upt_add_eq_append[of 0 m k] by simp
  moreover have "map (\<lambda>j. j + m) [0..<k] = [m..<m + k]"
    using map_add_upt[of m k] by (simp only: add.commute[of k m])
  ultimately have "[0..<m + k] = [0..<m] @ map (\<lambda>j. j + m) [0..<k]"
    by simp
  then have "split_into (m + k) c (r @ ys) =
      map (\<lambda>i. take c (drop (i * c) (r @ ys))) [0..<m] @
      map (\<lambda>j. take c (drop ((j + m) * c) (r @ ys))) [0..<k]"
    by (simp add: split_into_def comp_def)
  then show ?thesis
    using left right by (simp add: split_into_def)
qed

lemma split_into_concat_rows:
  assumes "\<forall>r\<in>set rows. length r = m * c"
  shows "split_into (length rows * m) c (concat rows) = concat (map (split_into m c) rows)"
  using assms
proof (induction rows)
  case Nil
  then show ?case by (simp add: split_into_def)
next
  case (Cons r rows)
  have "split_into (m + length rows * m) c (r @ concat rows)
      = split_into m c r @ split_into (length rows * m) c (concat rows)"
    using Cons.prems by (intro split_into_append) simp
  then show ?case
    using Cons by simp
qed

lemma split_into_rows:
  assumes "\<forall>r\<in>set rows. length r = k"
  shows "split_into (length rows) k (concat rows) = rows"
proof -
  have one: "split_into 1 k r = [r]" if "length r = k" for r :: "'a list"
    using that by (simp add: split_into_def)
  have "split_into (length rows * 1) k (concat rows) = concat (map (split_into 1 k) rows)"
    using assms by (intro split_into_concat_rows) simp
  also have "map (split_into 1 k) rows = map (\<lambda>r. [r]) rows"
    using assms one by (intro map_cong) simp_all
  finally show ?thesis by simp
qed

lemma truncate_block_eq:
  fixes x :: "('a::zero) list list"
  assumes "0 < t" and "0 < fdim" and "\<forall>row\<in>set x. length row = mna * fdim"
  shows "truncate_block mna fdim (int t) x =
           (if filter nonzero_chunk (concat (map (student_chunks mna fdim t) x)) = []
            then Inl ValueError
            else Inr (filter nonzero_chunk (concat (map (student_chunks mna fdim t) x))))"
proof -
  define m where "m = mna div t + 1"
  define pad where "pad = t - mna mod t"
  define padded where "padded = map (\<lambda>row. row @ replicate (pad * fdim) 0) x"
  have size: "length (concat x) = length x * mna * fdim"
    using sum_list_lengths[OF assms(3)] by (simp add: length_concat mult.assoc)
  have students: "split_into (length x) (mna * fdim) (concat x) = x"
    using assms(3) by (rule split_into_rows)
  have "int mna mod int t < int t"
    using assms(1) by simp
  then have padsize: "\<not> int t - int mna mod int t < 0"
    by simp
  have "mna mod t \<le> t" using assms(1) by (simp add: less_imp_le)
  then have natpad: "nat (int t - int mna mod int t) = pad"
    by (simp add: pad_def zmod_int[symmetric] of_nat_diff[symmetric] del: of_nat_diff)
  have mt: "mna + pad = m * t"
  proof -
    define q where "q = mna div t"
    define r where "r = mna mod t"
    have a: "mna = q * t + r" by (simp add: q_def r_def)
    have b: "r < t" using assms(1) by (simp add: r_def)
    have c: "(q + 1) * t = q * t + t" by simp
    have "mna + (t - r) = (q + 1) * t"
      unfolding c using a b by arith
    then show ?thesis
      by (simp only: pad_def m_def q_def r_def)
  qed
  have "mna * fdim + pad * fdim = (mna + pad) * fdim"
    by (simp add: add_mult_distrib)
  then have width: "mna * fdim + pad * fdim = m * (t * fdim)"
    by (simp only: mt mult.assoc)
  have rows: "\<forall>r\<in>set padded. length r = m * (t * fdim)"
    using assms(3) width by (simp add: padded_def)
  have lp: "length padded = length x" by (simp add: padded_def)
  have lflat: "length (concat padded) = length x * m * (t * fdim)"
    using sum_list_lengths[OF rows] by (simp add: length_concat lp mult.assoc)
  have cpos: "0 < t * fdim" using assms(1,2) by simp
  have divs: "length (concat padded) mod (t * fdim) = 0"
    "length (concat padded) div (t * fdim) = length x * m"
    using cpos by (simp_all add: lflat)
  have sc: "map (student_chunks mna fdim t) x = map (split_into m (t * fdim)) padded"
    by (simp add: padded_def student_chunks_def m_def pad_def comp_def)
  have chunks: "split_into (length x * m) (t * fdim) (concat padded)
      = concat (map (student_chunks mna fdim t) x)"
    using split_into_concat_rows[OF rows] unfolding lp sc[symmetric] .
  have lex: "list_ex (\<lambda>v. v \<noteq> 0) = (nonzero_chunk :: 'a list \<Rightarrow> bool)"
    by (rule ext) (simp add: nonzero_chunk_def)
  show ?thesis
    unfolding truncate_block_def Let_def students natpad padded_def[symmetric] lex nat_int
      divs chunks
    using assms(1) size padsize cpos by simp
qed

lemma py_range_1000:
  "py_range 0 (int n) 1000 = Inr (map (\<lambda>k. int (k * 1000)) [0..<(n + 1000 - 1) div 1000])"
  using py_range_pos[of 1000 n] by simp

lemma block_slice:
  "py_slice (int (k * 1000), int (k * 1000) + 1000) x = take 1000 (drop (k * 1000) x)"
  using py_slice_nat[of "k * 1000" "k * 1000 + 1000" x] by simp

lemma truncate_blocks_loop_eq:
  fixes x :: "('a::zero) list list"
  assumes "0 < t" and "0 < fdim" and "\<forall>row\<in>set x. length row = mna * fdim"
  shows "truncate_blocks_loop mna fdim (int t) x acc (map (\<lambda>k. int (k * 1000)) ks) =
           (if \<forall>k\<in>set ks. filter nonzero_chunk (concat (map (student_chunks mna fdim t)
                                  (take 1000 (drop (k * 1000) x)))) \<noteq> []
            then Inr (acc @ map (\<lambda>k. filter nonzero_chunk (concat (map (student_chunks mna fdim t)
                                  (take 1000 (drop (k * 1000) x))))) ks)
            else Inl ValueError)"
proof (induction ks arbitrary: acc)
  case Nil
  then show ?case by simp
next
  case (Cons k ks)
  have "set (take 1000 (drop (k * 1000) x)) \<subseteq> set x"
    by (meson set_take_subset set_drop_subset subset_trans)
  then have rect: "\<forall>row\<in>set (take 1000 (drop (k * 1000) x)). length row = mna * fdim"
    using assms(3) by blast
  show ?case
    using Cons.IH
    by (simp add: block_slice truncate_block_eq[OF assms(1,2) rect] del: of_nat_mult)
qed

lemma filter_chunks_blocks:
  "concat (map (\<lambda>k. filter P (concat (map f (take c (drop (k * c) x))))) [0..<n])
     = filter P (concat (map f (take (n * c) x)))"
proof (induction n)
  case 0
  then show ?case by simp
next
  case (Suc n)
  have "take (n * c) x @ take c (drop (n * c) x) = take (n * c + c) x"
    by (simp add: take_add)
  then have "take (Suc n * c) x = take (n * c) x @ take c (drop (n * c) x)"
    by (simp add: add.commute)
  then show ?case
    using Suc by simp
qed

lemma truncate_inputs_or_ids_eq:
  fixes x :: "('a::zero) list list"
  assumes "0 < t" and "0 < fdim" and "\<forall>row\<in>set x. length row = mna * fdim"
  shows "truncate_inputs_or_ids mna x fdim (int t) =
           (if x \<noteq> [] \<and>
               (\<forall>k<(length x + 1000 - 1) div 1000.
                  filter nonzero_chunk (concat (map (student_chunks mna fdim t)
                      (take 1000 (drop (k * 1000) x)))) \<noteq> [])
            then Inr (filter nonzero_chunk (concat (map (student_chunks mna fdim t) x)))
            else Inl ValueError)"
proof -
  let ?n = "(length x + 1000 - 1) div 1000"
  let ?F = "\<lambda>k. filter nonzero_chunk (concat (map (student_chunks mna fdim t)
                      (take 1000 (drop (k * 1000) x))))"
  have loop: "truncate_blocks_loop mna fdim (int t) x [] (map (\<lambda>k. int (k * 1000)) [0..<?n]) =
           (if \<forall>k\<in>set [0..<?n]. ?F k \<noteq> [] then Inr ([] @ map ?F [0..<?n]) else Inl ValueError)"
    by (rule truncate_blocks_loop_eq[OF assms])
  have cover: "take (?n * 1000) x = x"
    using slices_cover_length[of 1000 x] by simp
  have all: "concat (map ?F [0..<?n]) = filter nonzero_chunk (concat (map (student_chunks mna fdim t) x))"
    using filter_chunks_blocks[of nonzero_chunk "student_chunks mna fdim t" 1000 x ?n]
    unfolding cover .
  have empty: "(map ?F [0..<?n] = []) = (x = [])"
  proof -
    have "(?n = 0) = (length x = 0)" by arith
    then show ?thesis by simp
  qed
  have unfold: "truncate_inputs_or_ids mna x fdim (int t) =
      (case truncate_blocks_loop mna fdim (int t) x [] (map (\<lambda>k. int (k * 1000)) [0..<?n]) of
         Inl e \<Rightarrow> Inl e
       | Inr l \<Rightarrow> if l = [] then Inl ValueError else Inr (concat l))"
    by (simp only: truncate_inputs_or_ids_def py_range_1000 sum.case)
  have bounded: "(\<forall>k\<in>set [0..<?n]. ?F k \<noteq> []) = (\<forall>k<?n. ?F k \<noteq> [])"
    by auto
  show ?thesis
  proof (cases "\<forall>k<?n. ?F k \<noteq> []")
    case True
    then have T: "(\<forall>k<?n. ?F k \<noteq> []) = True" by simp
    have "truncate_inputs_or_ids mna x fdim (int t) =
        (if map ?F [0..<?n] = [] then Inl ValueError else Inr (concat (map ?F [0..<?n])))"
      unfolding unfold loop bounded T by (simp only: if_True sum.case append_Nil)
    then show ?thesis
      unfolding all empty using True by simp
  next
    case False
    then have F: "(\<forall>k<?n. ?F k \<noteq> []) = False" by simp
    have "truncate_inputs_or_ids mna x fdim (int t) = Inl ValueError"
      unfolding unfold loop bounded F by (simp only: if_False sum.case)
    then show ?thesis
      using False by simp
  qed
qed

lemma truncate_block_ok:
  fixes x :: "('a::zero) list list"
  assumes "truncate_block mna fdim threshold x = Inr y"
  shows "0 < threshold \<and> 0 < fdim"
proof -
  have nz: "threshold \<noteq> 0" and pad: "\<not> threshold - int mna mod threshold < 0"
    and chunk: "nat threshold * fdim \<noteq> 0"
    using assms by (auto simp: truncate_block_def Let_def split: if_splits)
  have "\<not> threshold < 0"
  proof
    assume "threshold < 0"
    then have "threshold < int mna mod threshold" by (rule neg_mod_bound)
    then show False using pad by simp
  qed
  then show ?thesis using nz chunk by simp
qed

lemma truncate_inputs_or_ids_ok:
  fixes x :: "('a::zero) list list"
  assumes "truncate_inputs_or_ids mna x fdim threshold = Inr y"
  shows "0 < threshold \<and> 0 < fdim"
proof -
  obtain starts res where st: "py_range 0 (int (length x)) 1000 = Inr starts"
    and loop: "truncate_blocks_loop mna fdim threshold x [] starts = Inr res" and ne: "res \<noteq> []"
    using assms by (auto simp: truncate_inputs_or_ids_def split: sum.splits if_splits)
  have "starts \<noteq> []"
    using loop ne by (cases starts) auto
  then obtain i rest where "starts = i # rest" by (cases starts) auto
  then obtain seqs where "truncate_block mna fdim threshold (py_slice (i, i + 1000) x) = Inr seqs"
    using loop by (auto split: sum.splits)
  then show ?thesis by (rule truncate_block_ok)
qed

text \<open>
  Claim C5. Whenever \<open>truncate_sequences\<close> returns, on matrices whose rows have the
  width \<open>max_num_ans * dim\<close> that its reshape demands, the threshold it returns and uses
  is \<open>min(max_num_ans, threshold)\<close>, which is positive and at most \<open>max_num_ans\<close>; and
  the rows it returns for the inputs, and likewise for the target ids, are exactly the
  chunks of the padded students that are not all zero, in their order. The result is a
  function of the input matrices and the threshold. (\<open>truncate_inputs_or_ids_eq\<close> says when
  the call returns: the matrix has a row and every block of 1000 students keeps a chunk.)
\<close>

theorem C5_truncate_sequences:
  fixes self :: "('a::zero, 't, 'r, 'm) ASSISTDataProvider_scheme"
  assumes "truncate_sequences self xs ids targs threshold = Inr (xs', ids', targs', t')"
    and "\<forall>row\<in>set xs. length row = max_num_ans self * encoding_dim self"
    and "\<forall>row\<in>set ids. length row = max_num_ans self * max_prob_set_id self"
  shows "t' = min (int (max_num_ans self)) threshold \<and> t' \<le> int (max_num_ans self) \<and> 0 < t' \<and>
         xs' = filter nonzero_chunk
                 (concat (map (student_chunks (max_num_ans self) (encoding_dim self) (nat t')) xs)) \<and>
         ids' = filter nonzero_chunk
                 (concat (map (student_chunks (max_num_ans self) (max_prob_set_id self) (nat t')) ids))"
proof -
  have t': "t' = min (int (max_num_ans self)) threshold"
    and x: "truncate_inputs_or_ids (max_num_ans self) xs (encoding_dim self) t' = Inr xs'"
    and i: "truncate_inputs_or_ids (max_num_ans self) ids (max_prob_set_id self) t' = Inr ids'"
    using assms(1) by (auto simp: truncate_sequences_def Let_def split: sum.splits)
  have pos: "0 < t'" "0 < encoding_dim self" "0 < max_prob_set_id self"
    using truncate_inputs_or_ids_ok[OF x] truncate_inputs_or_ids_ok[OF i] by simp_all
  then have nt: "0 < nat t'" "t' = int (nat t')"
    by simp_all
  have "Inr xs' = (if xs \<noteq> [] \<and>
               (\<forall>k<(length xs + 1000 - 1) div 1000.
                  filter nonzero_chunk (concat (map (student_chunks (max_num_ans self) (encoding_dim self) (nat t'))
                      (take 1000 (drop (k * 1000) xs)))) \<noteq> [])
            then Inr (filter nonzero_chunk (concat (map (student_chunks (max_num_ans self) (encoding_dim self) (nat t')) xs)))
            else Inl ValueError)"
    using truncate_inputs_or_ids_eq[OF nt(1) pos(2) assms(2)] x nt(2) by metis
  then have xs': "xs' = filter nonzero_chunk
                 (concat (map (student_chunks (max_num_ans self) (encoding_dim self) (nat t')) xs))"
    by (simp split: if_splits)
  have "Inr ids' = (if ids \<noteq> [] \<and>
               (\<forall>k<(length ids + 1000 - 1) div 1000.
                  filter nonzero_chunk (concat (map (student_chunks (max_num_ans self) (max_prob_set_id self) (nat t'))
                      (take 1000 (drop (k * 1000) ids)))) \<noteq> [])
            then Inr (filter nonzero_chunk (concat (map (student_chunks (max_num_ans self) (max_prob_set_id self) (nat t')) ids)))
            else Inl ValueError)"
    using truncate_inputs_or_ids_eq[OF nt(1) pos(3) assms(3)] i nt(2) by metis
  then have ids': "ids' = filter nonzero_chunk
                 (concat (map (student_chunks (max_num_ans self) (max_prob_set_id self) (nat t')) ids))"
    by (simp split: if_splits)
  show ?thesis
    using t' pos(1) xs' ids' by simp
qed

theorem C5_witness:
  "truncate_sequences example_provider [[1, 0], [1, 1], [0, 0]]
       [[1, 0], [1, 1], [0, 0]] [[True], [True, False], []] 5
     = Inr ([[1, 0], [1, 1]], [[1, 0], [1, 1]], [[True], [True, False]], 2) \<and>
   list_all (\<lambda>row. length row = max_num_ans example_provider * encoding_dim example_provider)
     [[1, 0], [1, 1], [0, 0 :: int]] \<and>
   list_all (\<lambda>row. length row = max_num_ans example_provider * max_prob_set_id example_provider)
     [[1, 0], [1, 1], [0, 0 :: int]] \<and>
   (2 :: int) = min (int (max_num_ans example_provider)) 5 \<and>
   [[1, 0], [1, 1 :: int]] = filter nonzero_chunk
       (concat (map (student_chunks (max_num_ans example_provider)
                       (encoding_dim example_provider) (nat 2)) [[1, 0], [1, 1], [0, 0]]))"
proof -
  have run: "truncate_sequences example_provider [[1, 0], [1, 1], [0, 0]]
       [[1, 0], [1, 1], [0, 0]] [[True], [True, False], []] 5
     = Inr ([[1, 0], [1, 1]], [[1, 0], [1, 1]], [[True], [True, False]], 2)"
    by code_simp
  have r1: "\<forall>row\<in>set [[1, 0], [1, 1], [0, 0 :: int]].
              length row = max_num_ans example_provider * encoding_dim example_provider"
    and r2: "\<forall>row\<in>set [[1, 0], [1, 1], [0, 0 :: int]].
              length row = max_num_ans example_provider * max_prob_set_id example_provider"
    by (simp_all add: example_provider_def)
  have l1: "list_all (\<lambda>row. length row = max_num_ans example_provider * encoding_dim example_provider)
     [[1, 0], [1, 1], [0, 0 :: int]]"
    and l2: "list_all (\<lambda>row. length row = max_num_ans example_provider * max_prob_set_id example_provider)
     [[1, 0], [1, 1], [0, 0 :: int]]"
    using r1 r2 by (simp_all only: list_all_iff)
  show ?thesis
    using C5_truncate_sequences[OF run r1 r2] run l1 l2 by blast
qed

subsection \<open>Construction\<close>

text \<open>
  Claim C10. Constructing a provider from a fold data bundle, with a valid \<open>which_set\<close>
  and \<open>which_year\<close>, fails with the assertion error of \<open>_validate_inputs\<close> when
  \<open>-inputs.npz\<close> or \<open>-targets.npz\<close> is missing at the path derived from \<open>data_dir\<close>,
  \<open>which_year\<close> and \<open>which_set\<close>; when both exist, the provider is built from the bundle
  alone and the world is left as it was, so the two files are required but never read.
\<close>

theorem C10_bundle_needs_files:
  assumes "wset \<in> set [''train'', ''test'']" and "wyear \<in> set [''09'', ''15'']"
  shows "(\<not> isfile w (path_join (expanduser lib ddir) (''assist'' @ wyear @ ''-'' @ wset) @ ''-inputs.npz'') \<or>
          \<not> isfile w (path_join (expanduser lib ddir) (''assist'' @ wyear @ ''-'' @ wset) @ ''-targets.npz'')
          \<longrightarrow> ASSIST_init lib w ddir wset wyear fr pm cs bs mnb shuf g (Some d)
                = (Inl AssertionError, w)) \<and>
         (isfile w (path_join (expanduser lib ddir) (''assist'' @ wyear @ ''-'' @ wset) @ ''-inputs.npz'') \<and>
          isfile w (path_join (expanduser lib ddir) (''assist'' @ wyear @ ''-'' @ wset) @ ''-targets.npz'')
          \<longrightarrow> ASSIST_init lib w ddir wset wyear fr pm cs bs mnb shuf g (Some d)
                = (DataProvider_init lib (ASSIST_shuffle lib)
                     (ASSISTDataProvider.fields wset wyear (expanduser lib ddir) 2 fr pm cs
                        (data_target_ids d) (data_max_num_ans d) (data_max_prob_set_id d)
                        (data_encoding_dim d) None None)
                     (data_inputs d) (data_targets d) bs mnb shuf g, w))"
  using assms by (auto simp: ASSIST_init_def validate_inputs_def Let_def)

theorem C10_witness:
  "''train'' \<in> set [''train'', ''test''] \<and> ''09'' \<in> set [''09'', ''15''] \<and>
   \<not> isfile example_world
       (path_join (expanduser example_library ''data'') (''assist'' @ ''09'' @ ''-'' @ ''train'')
          @ ''-inputs.npz'') \<and>
   ASSIST_init example_library example_world ''data'' ''train'' ''09'' 1 False False 1 (- 1) False
       (Some ()) (Some example_fold_data)
     = (Inl AssertionError, example_world)"
proof -
  have a: "''train'' \<in> set [''train'', ''test'']" and b: "''09'' \<in> set [''09'', ''15'']"
    by simp_all
  have c: "\<not> isfile example_world
       (path_join (expanduser example_library ''data'') (''assist'' @ ''09'' @ ''-'' @ ''train'')
          @ ''-inputs.npz'')"
    by (simp add: isfile_def example_world_def example_library_def path_join_def)
  show ?thesis
    using C10_bundle_needs_files[OF a b, where w = example_world and lib = example_library
        and ddir = "''data''"] a b c
    by blast
qed

lemma length_concat_split:
  "length (concat (map (split_into m c) rows)) = length rows * m"
  by (induction rows) (simp_all add: split_into_def)

lemma compress_inputs_eq:
  fixes xs :: "'a list list"
  assumes "dot_ok lib" and "0 < ed" and "length cm = ed" and "\<forall>row\<in>set cm. length row = cd"
    and "xs \<noteq> []" and "\<forall>row\<in>set xs. length row = mna * ed"
  shows "compress_inputs lib ed cm xs =
           Inr (split_into (length xs) (mna * cd)
                  (concat (dot lib (concat (map (split_into mna ed) xs)) cm)))"
proof -
  let ?A = "concat (map (split_into mna ed) xs)"
  have size: "length (concat xs) = length xs * mna * ed"
    using sum_list_lengths[OF assms(6)] by (simp add: length_concat mult.assoc)
  have d: "length (concat xs) mod ed = 0" "length (concat xs) div ed = length xs * mna"
    using assms(2) by (simp_all add: size)
  have A: "split_into (length xs * mna) ed (concat xs) = ?A"
    using assms(6) by (rule split_into_concat_rows)
  have width: "(case cm of [] \<Rightarrow> 0 | r # _ \<Rightarrow> length r) = cd"
    using assms(2,3,4) by (cases cm) auto
  have rows: "length (dot lib ?A cm) = length xs * mna"
    and cols: "\<forall>row\<in>set (dot lib ?A cm). length row = cd"
    using assms(1) unfolding dot_ok_def width[symmetric] by (simp_all add: length_concat_split)
  have psize: "length (concat (dot lib ?A cm)) = length xs * (mna * cd)"
    using sum_list_lengths[OF cols] by (simp add: length_concat rows mult.assoc)
  have npos: "0 < length xs" using assms(5) by simp
  have pd: "length (concat (dot lib ?A cm)) mod length xs = 0"
    "length (concat (dot lib ?A cm)) div length xs = mna * cd"
    using npos by (simp_all add: psize)
  show ?thesis
    unfolding compress_inputs_def Let_def d A pd
    using assms(2,3,5) by simp
qed

lemma py_slice_prefix: "py_slice (0, i) ys = take (clamp_index i (length ys)) ys"
  by (simp add: py_slice_def clamp_index_def Let_def)

lemma reduce_data_aligned:
  assumes "length targs = length xs" and "length ids = length xs"
  shows "\<exists>m. reduce_data lib xs targs ids fr = (take m xs, take m targs, take m ids)"
proof -
  have "reduce_data lib xs targs ids fr =
      (take (clamp_index (int_of_product lib (length xs) fr) (length xs)) xs,
       take (clamp_index (int_of_product lib (length xs) fr) (length xs)) targs,
       take (clamp_index (int_of_product lib (length xs) fr) (length xs)) ids)"
    using assms by (simp add: reduce_data_def Let_def py_slice_prefix)
  then show ?thesis by (rule exI)
qed

lemma load_data_encoding_dim:
  assumes "load_data w path pm = Inr (xs, targs, ids, mna, mpsi, ed)"
  shows "0 < ed"
  using assms
  by (auto simp: load_data_def Let_def split: option.splits npz.splits sum.splits if_splits)

lemma example_library_dot_ok: "dot_ok example_library"
  by (simp add: dot_ok_def example_library_def int_dot_def)

lemma example_library_permutation_ok: "permutation_ok example_library"
  using reversing_generator_ok
  by (simp add: permutation_ok_def example_library_def reversing_generator_def)

text \<open>
  Claim C8. Take a test split whose files pass the validation and load, and let
  \<open>xs1\<close>, \<open>targs1\<close>, \<open>ids1\<close> be the loaded rows after \<open>reduce_data\<close>. With compressed sensing
  enabled, if no compression matrix is stored at the training split's path then
  \<open>apply_compressed_sensing\<close>, and with it the constructor, fails with
  \<open>FileNotFoundError\<close> and leaves the world as it was: no matrix is drawn and none is
  written. If a matrix \<open>cm\<close> of \<open>encoding_dim\<close> rows and \<open>cd\<close> columns is stored there (the
  loaded rows being aligned, not empty, and of width \<open>max_num_ans * encoding_dim\<close>),
  then every answer of width \<open>encoding_dim\<close> is multiplied by \<open>cm\<close> and the products of a
  student are laid out again in one row of width \<open>max_num_ans * cd\<close>; the constructor
  succeeds, its inputs are these compressed rows (in the order of the first epoch, its
  targets and target ids in the same order), its \<open>compress_matrix\<close> is \<open>cm\<close>, its
  \<open>encoding_dim\<close> and \<open>compress_dim\<close> are \<open>cd\<close>, and the world, where no matrix is
  written, and the generator handed to the parent constructor are the ones passed in.
\<close>

theorem C8_test_split_loads_training_matrix:
  fixes w :: "('a, 't, 'r) world" and lib :: "('a, 'r, 'z) library_scheme"
  assumes "wyear \<in> set [''09'', ''15'']"
    and "isfile w (path_join (expanduser lib ddir) (''assist'' @ wyear @ ''-'' @ ''test'') @ ''-inputs.npz'')"
    and "isfile w (path_join (expanduser lib ddir) (''assist'' @ wyear @ ''-'' @ ''test'') @ ''-targets.npz'')"
    and "load_data w (path_join (expanduser lib ddir) (''assist'' @ wyear @ ''-'' @ ''test'')) pm
           = Inr (xs, targs, ids, mna, mpsi, ed)"
    and "reduce_data lib xs targs ids fr = (xs1, targs1, ids1)"
  shows "(files w (path_join (expanduser lib ddir) (''assist'' @ wyear @ ''-'' @ ''train'')
                     @ ''-compression-matrix.npz'') = None
          \<longrightarrow> apply_compressed_sensing lib w (expanduser lib ddir) ''test'' wyear ed xs1 g
                = (Inl FileNotFoundError, w) \<and>
              ASSIST_init lib w ddir ''test'' wyear fr pm True bs mnb shuf g None
                = (Inl FileNotFoundError, w)) \<and>
         (\<forall>cm cd.
            files w (path_join (expanduser lib ddir) (''assist'' @ wyear @ ''-'' @ ''train'')
                       @ ''-compression-matrix.npz'') = Some (CompressionNpz cm) \<and>
            length cm = ed \<and> (\<forall>row\<in>set cm. length row = cd) \<and>
            dot_ok lib \<and> permutation_ok lib \<and> 1 \<le> bs \<and> (mnb = - 1 \<or> 0 < mnb) \<and>
            length targs = length xs \<and> length ids = length xs \<and> xs1 \<noteq> [] \<and>
            (\<forall>row\<in>set xs. length row = mna * ed)
            \<longrightarrow> apply_compressed_sensing lib w (expanduser lib ddir) ''test'' wyear ed xs1 g
                  = (Inr (split_into (length xs1) (mna * cd)
                            (concat (dot lib (concat (map (split_into mna ed) xs1)) cm)),
                          cd, cm, cd, g), w) \<and>
                (\<exists>self perm.
                   ASSIST_init lib w ddir ''test'' wyear fr pm True bs mnb shuf g None
                     = (Inr self, w) \<and>
                   sort perm = [0..<length xs1] \<and>
                   inputs self =
                     map (\<lambda>i. split_into (length xs1) (mna * cd)
                                 (concat (dot lib (concat (map (split_into mna ed) xs1)) cm)) ! i)
                       perm \<and>
                   targets self = map (\<lambda>i. targs1 ! i) perm \<and>
                   target_ids self = map (\<lambda>i. ids1 ! i) perm \<and>
                   encoding_dim self = cd \<and> compress_matrix self = Some cm \<and>
                   compress_dim self = Some cd))"
proof -
  let ?cpath = "path_join (expanduser lib ddir) (''assist'' @ wyear @ ''-'' @ ''train'')
                     @ ''-compression-matrix.npz''"
  have v: "validate_inputs w ''test'' wyear
             (path_join (expanduser lib ddir) (''assist'' @ wyear @ ''-'' @ ''test'')) = Inr ()"
    using assms(1,2,3) by (simp add: validate_inputs_def)
  have init: "ASSIST_init lib w ddir ''test'' wyear fr pm True bs mnb shuf g None =
      (case apply_compressed_sensing lib w (expanduser lib ddir) ''test'' wyear ed xs1 g of
         (Inl e, w') \<Rightarrow> (Inl e, w')
       | (Inr (xs2, ed2, cm, cdim, g'), w') \<Rightarrow>
           (DataProvider_init lib (ASSIST_shuffle lib)
              (ASSISTDataProvider.fields ''test'' wyear (expanduser lib ddir) 2
                 fr pm True ids1 mna mpsi ed2 (Some cm) (Some cdim))
              xs2 targs1 bs mnb shuf g', w'))"
    unfolding ASSIST_init_def Let_def v assms(4) by (simp add: assms(5))
  have absent: "apply_compressed_sensing lib w (expanduser lib ddir) ''test'' wyear ed xs1 g
                = (Inl FileNotFoundError, w) \<and>
              ASSIST_init lib w ddir ''test'' wyear fr pm True bs mnb shuf g None
                = (Inl FileNotFoundError, w)"
    if "files w ?cpath = None"
  proof -
    have a: "apply_compressed_sensing lib w (expanduser lib ddir) ''test'' wyear ed xs1 g
                = (Inl FileNotFoundError, w)"
      using that by (simp add: apply_compressed_sensing_def Let_def)
    show ?thesis
      unfolding init a by simp
  qed
  have present: "apply_compressed_sensing lib w (expanduser lib ddir) ''test'' wyear ed xs1 g
                  = (Inr (split_into (length xs1) (mna * cd)
                            (concat (dot lib (concat (map (split_into mna ed) xs1)) cm)),
                          cd, cm, cd, g), w) \<and>
                (\<exists>self perm.
                   ASSIST_init lib w ddir ''test'' wyear fr pm True bs mnb shuf g None
                     = (Inr self, w) \<and>
                   sort perm = [0..<length xs1] \<and>
                   inputs self =
                     map (\<lambda>i. split_into (length xs1) (mna * cd)
                                 (concat (dot lib (concat (map (split_into mna ed) xs1)) cm)) ! i)
                       perm \<and>
                   targets self = map (\<lambda>i. targs1 ! i) perm \<and>
                   target_ids self = map (\<lambda>i. ids1 ! i) perm \<and>
                   encoding_dim self = cd \<and> compress_matrix self = Some cm \<and>
                   compress_dim self = Some cd)"
    if cfile: "files w ?cpath = Some (CompressionNpz cm)"
      and cm: "length cm = ed" "\<forall>row\<in>set cm. length row = cd"
      and lib: "dot_ok lib" "permutation_ok lib"
      and args: "1 \<le> bs" "mnb = - 1 \<or> 0 < mnb"
      and data: "length targs = length xs" "length ids = length xs" "xs1 \<noteq> []"
        "\<forall>row\<in>set xs. length row = mna * ed"
    for cm cd
  proof -
    let ?X = "split_into (length xs1) (mna * cd)
                (concat (dot lib (concat (map (split_into mna ed) xs1)) cm))"
    have ed: "0 < ed" using assms(4) by (rule load_data_encoding_dim)
    obtain m where "reduce_data lib xs targs ids fr = (take m xs, take m targs, take m ids)"
      using reduce_data_aligned[OF data(1,2)] by blast
    then have red: "xs1 = take m xs" "targs1 = take m targs" "ids1 = take m ids"
      using assms(5) by simp_all
    have lens: "length targs1 = length xs1" "length ids1 = length xs1"
      using data(1,2) by (simp_all add: red)
    have "set xs1 \<subseteq> set xs" unfolding red by (rule set_take_subset)
    then have rect: "\<forall>row\<in>set xs1. length row = mna * ed"
      using data(4) by blast
    have comp: "compress_inputs lib ed cm xs1 = Inr ?X"
      using compress_inputs_eq[OF lib(1) ed cm data(3) rect] .
    have width: "(case cm of [] \<Rightarrow> 0 | r # _ \<Rightarrow> length r) = cd"
      using ed cm by (cases cm) auto
    have app: "apply_compressed_sensing lib w (expanduser lib ddir) ''test'' wyear ed xs1 g
                  = (Inr (?X, cd, cm, cd, g), w)"
      unfolding apply_compressed_sensing_def Let_def using cfile
      by (simp add: comp width)
    have lx: "length ?X = length xs1" by (simp add: split_into_def)
    obtain self perm where
      "DataProvider_init lib (ASSIST_shuffle lib)
             (ASSISTDataProvider.fields ''test'' wyear (expanduser lib ddir) 2
                 fr pm True ids1 mna mpsi cd (Some cm) (Some cd))
             ?X targs1 bs mnb shuf g = Inr self"
      "sort perm = [0..<length ?X]"
      "inputs self = map (\<lambda>i. ?X ! i) perm" "targets self = map (\<lambda>i. targs1 ! i) perm"
      "target_ids self = map (\<lambda>i. ids1 ! i) perm" "encoding_dim self = cd"
      "compress_matrix self = Some cm" "compress_dim self = Some cd"
      using ASSIST_init_from_arrays[OF args lib(2), of targs1 ?X ids1 "''test''" wyear
          "expanduser lib ddir" 2 fr pm True mna mpsi cd "Some cm" "Some cd" shuf g]
        lens lx by auto
    then have "\<exists>self perm.
                   ASSIST_init lib w ddir ''test'' wyear fr pm True bs mnb shuf g None
                     = (Inr self, w) \<and>
                   sort perm = [0..<length xs1] \<and>
                   inputs self = map (\<lambda>i. ?X ! i) perm \<and>
                   targets self = map (\<lambda>i. targs1 ! i) perm \<and>
                   target_ids self = map (\<lambda>i. ids1 ! i) perm \<and>
                   encoding_dim self = cd \<and> compress_matrix self = Some cm \<and>
                   compress_dim self = Some cd"
      unfolding init app lx by (intro exI[of _ self] exI[of _ perm]) simp
    then show ?thesis using app by (intro conjI)
  qed
  show ?thesis
    using absent present by (intro conjI impI allI) blast+
qed

theorem C8_witness:
  "''09'' \<in> set [''09'', ''15''] \<and>
   isfile example_world ''data/assist09-test-inputs.npz'' \<and>
   isfile example_world ''data/assist09-test-targets.npz'' \<and>
   load_data example_world ''data/assist09-test'' False
     = Inr ([[0, 1, 0, 0, 0, 0], [0, 0, 1, 0, 1, 0]], [[True], [False, True]],
            [[1, 0], [1, 1]], 2, 1, 3) \<and>
   reduce_data example_library [[0, 1, 0, 0, 0, 0], [0, 0, 1, 0, 1, 0]] [[True], [False, True]]
       [[1, 0], [1, 1]] 1
     = ([[0, 1, 0, 0, 0, 0], [0, 0, 1, 0, 1, 0]], [[True], [False, True]], [[1, 0], [1, 1]]) \<and>
   files example_world ''data/assist09-train-compression-matrix.npz'' = None \<and>
   ASSIST_init example_library example_world ''data'' ''test'' ''09'' 1 False True 1 (- 1) False
       (Some ()) None
     = (Inl FileNotFoundError, example_world) \<and>
   isfile example_world_with_matrix ''data/assist09-test-inputs.npz'' \<and>
   isfile example_world_with_matrix ''data/assist09-test-targets.npz'' \<and>
   load_data example_world_with_matrix ''data/assist09-test'' False
     = Inr ([[0, 1, 0, 0, 0, 0], [0, 0, 1, 0, 1, 0]], [[True], [False, True]],
            [[1, 0], [1, 1]], 2, 1, 3) \<and>
   files example_world_with_matrix ''data/assist09-train-compression-matrix.npz''
     = Some (CompressionNpz [[1, 0], [0, 1], [1, 1]]) \<and>
   dot_ok example_library \<and> permutation_ok example_library \<and>
   apply_compressed_sensing example_library example_world_with_matrix ''data'' ''test'' ''09'' 3
       [[0, 1, 0, 0, 0, 0], [0, 0, 1, 0, 1, 0]] (Some ())
     = (Inr ([[0, 1, 0, 0], [1, 1, 0, 1]], 2, [[1, 0], [0, 1], [1, 1]], 2, Some ()),
        example_world_with_matrix) \<and>
   (\<exists>self perm.
      ASSIST_init example_library example_world_with_matrix ''data'' ''test'' ''09'' 1 False True
          1 (- 1) False (Some ()) None
        = (Inr self, example_world_with_matrix) \<and>
      sort perm = [0..<2] \<and>
      inputs self = map (\<lambda>i. [[0, 1, 0, 0], [1, 1, 0, 1]] ! i) perm \<and>
      targets self = map (\<lambda>i. [[True], [False, True]] ! i) perm \<and>
      target_ids self = map (\<lambda>i. [[1, 0], [1, 1]] ! i) perm \<and>
      encoding_dim self = 2 \<and> compress_matrix self = Some [[1, 0], [0, 1], [1, 1]] \<and>
      compress_dim self = Some 2)"
proof -
  let ?xs = "[[0, 1, 0, 0, 0, 0], [0, 0, 1, 0, 1, 0]] :: int list list"
  let ?ts = "[[True], [False, True]]"
  let ?ids = "[[1, 0], [1, 1]] :: int list list"
  let ?cm = "[[1, 0], [0, 1], [1, 1]] :: int list list"
  have paths:
    "expanduser example_library ''data'' = ''data''"
    "path_join ''data'' (''assist'' @ ''09'' @ ''-'' @ ''test'') = ''data/assist09-test''"
    "path_join ''data'' (''assist'' @ ''09'' @ ''-'' @ ''train'') @ ''-compression-matrix.npz''
       = ''data/assist09-train-compression-matrix.npz''"
    by (simp_all add: example_library_def path_join_def)
  have a: "''09'' \<in> set [''09'', ''15'']"
    by simp
  have b: "isfile example_world (''data/assist09-test'' @ ''-inputs.npz'')"
    and c: "isfile example_world (''data/assist09-test'' @ ''-targets.npz'')"
    by (simp_all add: isfile_def example_world_def)
  have d: "load_data example_world ''data/assist09-test'' False = Inr (?xs, ?ts, ?ids, 2, 1, 3)"
    by (simp add: load_data_def load_sparse_def example_world_def Let_def)
  have r: "reduce_data example_library ?xs ?ts ?ids 1 = (?xs, ?ts, ?ids)"
    by (simp add: reduce_data_def example_library_def int_of_rat_def py_slice_def
          clamp_index_def Let_def)
  have e: "files example_world ''data/assist09-train-compression-matrix.npz'' = None"
    by (simp add: example_world_def)
  have b': "isfile example_world_with_matrix (''data/assist09-test'' @ ''-inputs.npz'')"
    and c': "isfile example_world_with_matrix (''data/assist09-test'' @ ''-targets.npz'')"
    by (simp_all add: isfile_def example_world_with_matrix_def example_world_def)
  have d': "load_data example_world_with_matrix ''data/assist09-test'' False
              = Inr (?xs, ?ts, ?ids, 2, 1, 3)"
    by (simp add: load_data_def load_sparse_def example_world_with_matrix_def
          example_world_def Let_def)
  have e': "files example_world_with_matrix ''data/assist09-train-compression-matrix.npz''
              = Some (CompressionNpz ?cm)"
    by (simp add: example_world_with_matrix_def)
  have X: "split_into 2 (2 * 2)
             (concat (dot example_library (concat (map (split_into 2 3) ?xs)) ?cm))
           = [[0, 1, 0, 0], [1, 1, 0, 1]]"
    by (simp add: split_into_def example_library_def int_dot_def eval_nat_numeral)
  have absent: "ASSIST_init example_library example_world ''data'' ''test'' ''09'' 1 False True 1
          (- 1) False (Some ()) None = (Inl FileNotFoundError, example_world)"
    using C8_test_split_loads_training_matrix[where lib = example_library
        and w = example_world and ddir = "''data''" and wyear = "''09''" and pm = False
        and fr = 1 and bs = 1 and mnb = "- 1" and shuf = False and g = "Some ()",
        unfolded paths, OF a b c d r] e
    by blast
  have present: "apply_compressed_sensing example_library example_world_with_matrix ''data''
         ''test'' ''09'' 3 ?xs (Some ())
       = (Inr (split_into (length ?xs) (2 * 2)
             (concat (dot example_library (concat (map (split_into 2 3) ?xs)) ?cm)),
             2, ?cm, 2, Some ()), example_world_with_matrix) \<and>
     (\<exists>self perm.
      ASSIST_init example_library example_world_with_matrix ''data'' ''test'' ''09'' 1 False True
          1 (- 1) False (Some ()) None
        = (Inr self, example_world_with_matrix) \<and>
      sort perm = [0..<length ?xs] \<and>
      inputs self = map (\<lambda>i. split_into (length ?xs) (2 * 2)
             (concat (dot example_library (concat (map (split_into 2 3) ?xs)) ?cm)) ! i) perm \<and>
      targets self = map (\<lambda>i. ?ts ! i) perm \<and>
      target_ids self = map (\<lambda>i. ?ids ! i) perm \<and>
      encoding_dim self = 2 \<and> compress_matrix self = Some ?cm \<and>
      compress_dim self = Some 2)"
    using C8_test_split_loads_training_matrix[where lib = example_library
        and w = example_world_with_matrix and ddir = "''data''" and wyear = "''09''"
        and pm = False and fr = 1 and bs = 1 and mnb = "- 1" and shuf = False
        and g = "Some ()", unfolded paths, OF a b' c' d' r, THEN conjunct2, rule_format,
        of ?cm 2]
      e' example_library_dot_ok example_library_permutation_ok
    by simp
  have len: "length ?xs = 2" by simp
  note present' = present[unfolded len X]
  have b0: "isfile example_world ''data/assist09-test-inputs.npz''"
    and c0: "isfile example_world ''data/assist09-test-targets.npz''"
    and b1: "isfile example_world_with_matrix ''data/assist09-test-inputs.npz''"
    and c1: "isfile example_world_with_matrix ''data/assist09-test-targets.npz''"
    using b c b' c' by simp_all
  show ?thesis
    using a b0 c0 d r e absent b1 c1 d' e' example_library_dot_ok
      example_library_permutation_ok present'[THEN conjunct1] present'[THEN conjunct2]
    by (intro conjI)
qed

subsection \<open>Fold splitting\<close>

lemma fold_start_0: "fold_start n k 0 = 0"
  by (simp add: fold_start_def)

lemma fold_start_k: "fold_start n k k = n" if "0 < k"
proof -
  have "n mod k < k" using that by simp
  then have "min k (n mod k) = n mod k" by simp
  then show ?thesis by (simp add: fold_start_def)
qed

lemma fold_start_mono: "i \<le> j \<Longrightarrow> fold_start n k i \<le> fold_start n k j"
  unfolding fold_start_def by (intro add_mono mult_le_mono1 min.mono) simp_all

lemma fold_start_find:
  "r < fold_start n k m \<Longrightarrow> \<exists>i<m. fold_start n k i \<le> r \<and> r < fold_start n k (i + 1)"
proof (induction m)
  case 0
  then show ?case by (simp add: fold_start_0)
next
  case (Suc m)
  show ?case
  proof (cases "r < fold_start n k m")
    case True
    then obtain i where "i < m" "fold_start n k i \<le> r \<and> r < fold_start n k (i + 1)"
      using Suc.IH by blast
    then show ?thesis using less_Suc_eq by auto
  next
    case False
    then have "fold_start n k m \<le> r \<and> r < fold_start n k (m + 1)"
      using Suc.prems by simp
    then show ?thesis by blast
  qed
qed

text \<open>
  Claim C6. Whenever the k-fold split of \<open>n\<close> rows succeeds it has \<open>k\<close> folds; every row
  is a validation row of exactly one fold, is not a training row of that fold, and is a
  training row (and not a validation row) of each of the other \<open>k - 1\<close> folds; and in
  every fold the training and the validation indices are disjoint and together make up
  all rows. \<open>_get_k_folds\<close> selects the rows of every fold by these index pairs.
\<close>

theorem C6_kfold_partition:
  assumes "kfold_split k n = Inr folds"
  shows "length folds = nat k \<and>
         (\<forall>r<n. \<exists>i<length folds.
              r \<in> set (snd (folds ! i)) \<and> r \<notin> set (fst (folds ! i)) \<and>
              (\<forall>j<length folds. j \<noteq> i \<longrightarrow>
                   r \<notin> set (snd (folds ! j)) \<and> r \<in> set (fst (folds ! j)))) \<and>
         (\<forall>i<length folds.
              set (fst (folds ! i)) \<inter> set (snd (folds ! i)) = {} \<and>
              set (fst (folds ! i)) \<union> set (snd (folds ! i)) = {0..<n})"
proof -
  define K where "K = nat k"
  define s where "s = fold_start n K"
  have k1: "\<not> k \<le> 1" and k2: "\<not> int n < k"
    using assms by (simp_all add: kfold_split_def split: if_splits)
  have "kfold_split k n = Inr (map (\<lambda>i. ([0..<s i] @ [s (i + 1)..<n], [s i..<s (i + 1)])) [0..<K])"
    unfolding kfold_split_def s_def K_def by (simp only: k1 k2 if_False)
  then have folds: "folds = map (\<lambda>i. ([0..<s i] @ [s (i + 1)..<n], [s i..<s (i + 1)])) [0..<K]"
    using assms by simp
  have k: "1 < k" using k1 by simp
  have Kpos: "0 < K" using k by (simp add: K_def)
  have len: "length folds = K" by (simp add: folds)
  have nth: "fst (folds ! i) = [0..<s i] @ [s (i + 1)..<n]" "snd (folds ! i) = [s i..<s (i + 1)]"
    if "i < K" for i
    using that by (simp_all add: folds)
  have mono: "s i \<le> s j" if "i \<le> j" for i j
    unfolding s_def using that by (rule fold_start_mono)
  have top: "s i \<le> n" if "i \<le> K" for i
    using mono[OF that] fold_start_k[OF Kpos, of n] by (simp add: s_def)
  have part1: "\<exists>i<length folds.
              r \<in> set (snd (folds ! i)) \<and> r \<notin> set (fst (folds ! i)) \<and>
              (\<forall>j<length folds. j \<noteq> i \<longrightarrow>
                   r \<notin> set (snd (folds ! j)) \<and> r \<in> set (fst (folds ! j)))" if "r < n" for r
  proof -
    have "r < fold_start n K K" using that fold_start_k[OF Kpos, of n] by simp
    then obtain i where i: "i < K" "s i \<le> r" "r < s (i + 1)"
      using fold_start_find[of r n K K] unfolding s_def by blast
    have other: "r \<notin> set (snd (folds ! j)) \<and> r \<in> set (fst (folds ! j))"
      if j: "j < K" "j \<noteq> i" for j
    proof (cases "j < i")
      case True
      then have "s (j + 1) \<le> s i" by (intro mono) simp
      then show ?thesis using i(2) \<open>r < n\<close> by (simp add: nth[OF j(1)])
    next
      case False
      then have "s (i + 1) \<le> s j" using j(2) by (intro mono) simp
      then show ?thesis using i(3) by (simp add: nth[OF j(1)])
    qed
    have "r \<in> set (snd (folds ! i)) \<and> r \<notin> set (fst (folds ! i))"
      using i by (simp add: nth[OF i(1)])
    then show ?thesis
      using i(1) other unfolding len by blast
  qed
  have part2: "set (fst (folds ! i)) \<inter> set (snd (folds ! i)) = {} \<and>
              set (fst (folds ! i)) \<union> set (snd (folds ! i)) = {0..<n}" if "i < length folds" for i
  proof -
    have i: "i < K" using that len by simp
    have a: "s i \<le> s (i + 1)" by (intro mono) simp
    have b: "s (i + 1) \<le> n" using i by (intro top) simp
    have "set (fst (folds ! i)) = {0..<s i} \<union> {s (i + 1)..<n}"
      and "set (snd (folds ! i)) = {s i..<s (i + 1)}"
      by (simp_all add: nth[OF i])
    then show ?thesis
      using a b by auto
  qed
  have "length folds = nat k"
    using len by (simp only: K_def)
  moreover have "\<forall>r<n. \<exists>i<length folds.
              r \<in> set (snd (folds ! i)) \<and> r \<notin> set (fst (folds ! i)) \<and>
              (\<forall>j<length folds. j \<noteq> i \<longrightarrow>
                   r \<notin> set (snd (folds ! j)) \<and> r \<in> set (fst (folds ! j)))"
    using part1 by (intro allI impI)
  moreover have "\<forall>i<length folds.
              set (fst (folds ! i)) \<inter> set (snd (folds ! i)) = {} \<and>
              set (fst (folds ! i)) \<union> set (snd (folds ! i)) = {0..<n}"
    using part2 by (intro allI impI)
  ultimately show ?thesis
    by (intro conjI)
qed

theorem C6_witness:
  "kfold_split 2 5 = Inr [([3, 4], [0, 1, 2]), ([0, 1, 2], [3, 4])] \<and>
   length ([([3, 4], [0, 1, 2]), ([0, 1, 2], [3, 4])] :: (nat list \<times> nat list) list) = nat 2"
proof -
  have e: "kfold_split 2 5 = Inr [([3, 4], [0, 1, 2]), ([0, 1, 2], [3, 4])]"
    by code_simp
  have "length ([([3, 4], [0, 1, 2]), ([0, 1, 2], [3, 4])] :: (nat list \<times> nat list) list) = nat 2"
    by (rule C6_kfold_partition[OF e, THEN conjunct1])
  then show ?thesis
    using e by (intro conjI)
qed

subsection \<open>Row alignment\<close>






























end
